theory Spec2Isabelle
  imports Main "HOL-Library.Char_ord" "HOL-Library.List_Lexorder"
    "HOL-Library.Product_Lexorder" "HOL-Library.Sublist"
begin

section \<open>Icon synchronisation script (scripts/sync\_icons.py)\<close>

text \<open>
  The script parses \<open>--source\<close> and \<open>--targets\<close>, loads one square source image (PNG,
  or SVG rasterised by ImageMagick), and writes PNG, ICO and SVG files for the selected
  targets.  The embedding follows the script function by function.  Everything the
  script obtains from outside itself (the file system, the image library, the \<open>convert\<close>
  binary, the argument parser's way of reporting a rejected value) is a field of the
  record \<open>world\<close> or a definition marked as library behaviour.

  Strings are lists of characters; a character stands for a code point below 256.
  A path is the list of the components of an absolute POSIX path.
\<close>

subsection \<open>Strings\<close>

text \<open>\<open>str.isspace\<close> on one code point below 256.\<close>

definition isspace :: "char \<Rightarrow> bool" where
  "isspace c =
     (let n = (of_char c :: nat)
      in (9 \<le> n \<and> n \<le> 13) \<or> (28 \<le> n \<and> n \<le> 32) \<or> n = 133 \<or> n = 160)"

text \<open>\<open>str.strip()\<close>: leading and trailing whitespace removed.\<close>

definition strip :: "string \<Rightarrow> string" where
  "strip s = rev (dropWhile isspace (rev (dropWhile isspace s)))"

text \<open>\<open>str.split(sep)\<close> for a one-character separator: the empty string gives one
  empty segment, and \<open>n\<close> separators give \<open>n + 1\<close> segments.\<close>

fun split_on :: "char \<Rightarrow> string \<Rightarrow> string list" where
  "split_on sep [] = [[]]"
| "split_on sep (c # cs) =
     (if c = sep then [] # split_on sep cs
      else (case split_on sep cs of [] \<Rightarrow> [[c]] | s # ss \<Rightarrow> (c # s) # ss))"

text \<open>\<open>sep.join(xs)\<close>.\<close>

fun join :: "string \<Rightarrow> string list \<Rightarrow> string" where
  "join sep [] = []"
| "join sep [x] = x"
| "join sep (x # y # ys) = x @ sep @ join sep (y # ys)"

text \<open>\<open>str.lower()\<close> on code points below 256: the ASCII capitals and the Latin-1
  capitals (all of 192..222 but the multiplication sign 215) move up by 32.\<close>

definition lower_char :: "char \<Rightarrow> char" where
  "lower_char c =
     (let n = (of_char c :: nat)
      in if (65 \<le> n \<and> n \<le> 90) \<or> (192 \<le> n \<and> n \<le> 222 \<and> n \<noteq> 215)
         then char_of (n + 32) else c)"

definition lower :: "string \<Rightarrow> string" where
  "lower s = map lower_char s"

text \<open>\<open>str.rfind(c)\<close>: the index of the last occurrence, \<open>None\<close> for Python's \<open>-1\<close>.\<close>

fun rfind :: "char \<Rightarrow> string \<Rightarrow> nat option" where
  "rfind c [] = None"
| "rfind c (x # xs) =
     (case rfind c xs of
        Some i \<Rightarrow> Some (Suc i)
      | None \<Rightarrow> (if x = c then Some 0 else None))"

text \<open>\<open>str(n)\<close> for a natural number: its decimal digits.\<close>

fun str_nat :: "nat \<Rightarrow> string" where
  "str_nat n =
     (if n < 10 then [''0123456789'' ! n]
      else str_nat (n div 10) @ [''0123456789'' ! (n mod 10)])"

declare str_nat.simps [simp del]

subsection \<open>Paths\<close>

type_synonym path = "string list"

text \<open>\<open>str(path)\<close>, \<open>path.name\<close> and \<open>path.suffix\<close> of pathlib: the suffix is the
  part of the last component from its last dot on, unless that dot is the first or the
  last character of the name.\<close>

definition path_str :: "path \<Rightarrow> string" where
  "path_str p = ''/'' @ join ''/'' p"

definition path_name :: "path \<Rightarrow> string" where
  "path_name p = (if p = [] then [] else last p)"

definition path_suffix :: "path \<Rightarrow> string" where
  "path_suffix p =
     (let name = path_name p
      in case rfind CHR ''.'' name of
           None \<Rightarrow> []
         | Some i \<Rightarrow> (if 0 < i \<and> i < length name - 1 then drop i name else []))"

subsection \<open>Data model\<close>

record TargetConfig =
  png :: "(nat \<times> path) list"
  ico :: "path list"
  svg :: "path list"

record CliArgs =
  source :: string
  targets :: "string list"

text \<open>A decoded bitmap in RGBA layout.\<close>

record image =
  width :: nat
  height :: nat
  pixels :: "nat list"

text \<open>The exceptions that leave a function of the script: \<open>ArgumentTypeError\<close> of
  \<open>parse_targets\<close>, \<open>KeyError\<close> of the registry lookup, \<open>ValueError\<close> (raised by the
  script, or by a library), \<open>OSError\<close> of the file system and of starting a process, and
  \<open>OtherError\<close> for an exception of any other class that a library raises (Pillow's
  \<open>DecompressionBombError\<close>, for one).  \<open>UnidentifiedImageError\<close> and
  \<open>CalledProcessError\<close> never leave the loader: where they can occur, an \<open>except\<close>
  clause turns them into \<open>ValueError\<close>.\<close>

datatype error =
    ArgumentTypeError string
  | ValueError string
  | KeyError string
  | OSError string
  | OtherError string

definition ICO_ENTRY_SIZES :: "nat list" where
  "ICO_ENTRY_SIZES = [16, 24, 32, 48, 64, 128, 256]"

definition PNG_COMPRESS_LEVEL :: nat where
  "PNG_COMPRESS_LEVEL = 9"

text \<open>The registry is a Python dict: an association list in insertion order, looked up
  with \<open>map_of\<close>.  Its paths are relative to the repository root.\<close>

definition MANAGED_TARGETS :: "(string \<times> TargetConfig) list" where
  "MANAGED_TARGETS =
     [(''web'',
        \<lparr>png = [(16, [''web'', ''public'', ''favicon-16x16.png'']),
                (32, [''web'', ''public'', ''favicon-32x32.png'']),
                (512, [''web'', ''public'', ''videnoa_icon.png''])],
         ico = [[''web'', ''public'', ''favicon.ico'']],
         svg = [[''web'', ''public'', ''favicon.svg'']]\<rparr>),
      (''desktop'',
        \<lparr>png = [(512, [''crates'', ''desktop'', ''icons'', ''icon.png'']),
                (32, [''crates'', ''desktop'', ''icons'', ''icon-32.png'']),
                (64, [''crates'', ''desktop'', ''icons'', ''icon-64.png'']),
                (128, [''crates'', ''desktop'', ''icons'', ''icon-128.png'']),
                (256, [''crates'', ''desktop'', ''icons'', ''icon-256.png''])],
         ico = [[''crates'', ''desktop'', ''icons'', ''icon.ico'']],
         svg = []\<rparr>)]"

subsection \<open>The world outside the script\<close>

text \<open>What \<open>Image.open\<close>, \<open>load\<close> and \<open>convert("RGBA")\<close> give for a file: one of them
  raises \<open>UnidentifiedImageError\<close> (the file is not an image), another \<open>OSError\<close>
  (reading fails; its text is kept), \<open>ValueError\<close>, or an exception of another class;
  or the file decodes to a bitmap of some format.\<close>

datatype open_result =
    Unidentified
  | Unreadable string
  | Invalid string
  | Refused string
  | Decoded string image

text \<open>What \<open>subprocess.run\<close> gives: the process cannot be started (\<open>OSError\<close>), or it
  ends with an exit status.\<close>

datatype run_result =
    NotStarted string
  | Exited int

text \<open>What a written file holds: a PNG rendering of a bitmap at a size with a filter
  and a compression level, an ICO bundle of a bitmap at the embedded sizes, or a byte
  copy of another file.\<close>

datatype file_content =
    PngFile image nat int nat
  | IcoFile image "(nat \<times> nat) list"
  | CopyOf path

type_synonym log = "(path \<times> file_content) list"

text \<open>The world answers every call that leaves the script.  \<open>Path.exists\<close> and
  \<open>Path.is_file\<close> answer with a truth value, or raise \<open>OSError\<close> for a path they
  cannot examine (\<open>Inl\<close> with the error's text); \<open>TemporaryDirectory\<close> likewise gives
  the directory or raises \<open>OSError\<close>.  \<open>io_error\<close> is the text of the \<open>OSError\<close>, if any,
  that making the parent directories and opening, writing or copying the file raise.
  \<open>print_usage\<close> is the usage message as the argument parser formats it for the
  terminal, \<open>ico_no_size_message\<close> the text of the \<open>ValueError\<close> of the ICO encoder.\<close>

record world =
  prog :: string
  print_usage :: string
  ROOT_DIR :: path
  Resampling_LANCZOS :: "int option"
  Image_LANCZOS :: "int option"
  resolve :: "string \<Rightarrow> path"
  path_exists :: "path \<Rightarrow> string + bool"
  path_is_file :: "path \<Rightarrow> string + bool"
  image_open :: "path \<Rightarrow> open_result"
  which :: "string \<Rightarrow> string option"
  mkdtemp :: "string \<Rightarrow> string + path"
  subprocess_run :: "string list \<Rightarrow> run_result"
  io_error :: "path \<Rightarrow> file_content \<Rightarrow> string option"
  ico_no_size_message :: string

text \<open>\<open>_resample_filter\<close>: \<open>Image.Resampling.LANCZOS\<close> when the library has the
  \<open>Resampling\<close> enumeration, else the attribute \<open>Image.LANCZOS\<close> with default 1.\<close>

definition resample_filter :: "world \<Rightarrow> int" where
  "resample_filter w =
     (case Resampling_LANCZOS w of
        Some v \<Rightarrow> v
      | None \<Rightarrow> (case Image_LANCZOS w of Some v \<Rightarrow> v | None \<Rightarrow> 1))"

definition RESAMPLE_FILTER :: "world \<Rightarrow> int" where
  "RESAMPLE_FILTER w = resample_filter w"

subsection \<open>Command line\<close>

text \<open>The loop of \<open>parse_targets\<close> that drops repeated names, with its two variables
  \<open>deduped\<close> and \<open>seen\<close>.\<close>

fun dedupe_loop :: "string list \<Rightarrow> string list \<Rightarrow> string set \<Rightarrow> string list" where
  "dedupe_loop [] deduped seen = deduped"
| "dedupe_loop (target # rest) deduped seen =
     (if target \<in> seen then dedupe_loop rest deduped seen
      else dedupe_loop rest (deduped @ [target]) (insert target seen))"

definition raw_targets :: "string \<Rightarrow> string list" where
  "raw_targets v =
     map strip (filter (\<lambda>segment. strip segment \<noteq> []) (split_on CHR '','' v))"

definition known :: "string set" where
  "known = set (map fst MANAGED_TARGETS)"

definition parse_targets :: "string \<Rightarrow> error + string list" where
  "parse_targets v =
     (if raw_targets v = []
      then Inl (ArgumentTypeError ''--targets must include at least one target'')
      else
        (let unknown = sorted_list_of_set (set (raw_targets v) - known)
         in if unknown \<noteq> []
            then
              (let supported = join '','' (sorted_list_of_set known);
                   unknown_str = join '','' unknown
               in Inl (ArgumentTypeError
                    (''unknown target(s): '' @ unknown_str
                       @ ''. Supported targets: '' @ supported)))
            else Inr (dedupe_loop (raw_targets v) [] {})))"

text \<open>How a process ends: \<open>Exit n\<close> is \<open>SystemExit(n)\<close>, \<open>Uncaught e\<close> an exception
  that nothing catches (the interpreter prints a traceback and the status is 1).  A run
  is the outcome, what the script and the argument parser printed on standard output and
  on standard error (the interpreter's traceback is not part of it), and the files
  written, in order.\<close>

datatype outcome = Exit int | Uncaught error

record run =
  outcome :: outcome
  stdout :: string
  stderr :: string
  files :: log

fun exit_status :: "outcome \<Rightarrow> int" where
  "exit_status (Exit n) = n"
| "exit_status (Uncaught e) = 1"

text \<open>Library behaviour (argparse): when the \<open>type\<close> callable of an option raises
  \<open>ArgumentTypeError\<close>, \<open>parse_args\<close> calls \<open>parser.error\<close>, which prints the usage
  message and \<open>prog: error: argument --targets: message\<close> to standard error and exits
  with status 2.\<close>

definition parser_error :: "world \<Rightarrow> string \<Rightarrow> run" where
  "parser_error w message =
     \<lparr>outcome = Exit 2, stdout = [],
      stderr = print_usage w @ prog w @ '': error: '' @ message @ [CHR 0x0A],
      files = []\<rparr>"

text \<open>\<open>parse_args\<close> on a command line that gives both required options, each with a
  value, and nothing else (so not \<open>-h\<close>): \<open>--targets\<close> goes through \<open>parse_targets\<close>,
  \<open>--source\<close> is taken as it is.\<close>

definition parse_args :: "world \<Rightarrow> string \<Rightarrow> string \<Rightarrow> run + CliArgs" where
  "parse_args w source_arg targets_arg =
     (case parse_targets targets_arg of
        Inl (ArgumentTypeError message) \<Rightarrow>
          Inl (parser_error w (''argument --targets: '' @ message))
      | Inl e \<Rightarrow> Inl \<lparr>outcome = Uncaught e, stdout = [], stderr = [], files = []\<rparr>
      | Inr ts \<Rightarrow> Inr \<lparr>source = source_arg, targets = ts\<rparr>)"

definition resolve_source :: "world \<Rightarrow> string \<Rightarrow> path" where
  "resolve_source w source_arg = resolve w source_arg"

subsection \<open>Source loader\<close>

text \<open>In \<open>load_png_image\<close> the two \<open>except\<close> clauses turn \<open>UnidentifiedImageError\<close> and
  \<open>OSError\<close> into \<open>ValueError\<close>; any other exception leaves the function as it is.\<close>

definition load_png_image :: "world \<Rightarrow> path \<Rightarrow> error + image" where
  "load_png_image w source_path =
     (case image_open w source_path of
        Unidentified \<Rightarrow>
          Inl (ValueError (''source is not a readable image: '' @ path_str source_path))
      | Unreadable err \<Rightarrow>
          Inl (ValueError
            (''cannot read source image: '' @ path_str source_path @ '': '' @ err))
      | Invalid err \<Rightarrow> Inl (ValueError err)
      | Refused err \<Rightarrow> Inl (OtherError err)
      | Decoded fmt im \<Rightarrow>
          (if fmt \<noteq> ''PNG''
           then Inl (ValueError (''source must be a PNG image: '' @ path_str source_path))
           else Inr im))"

text \<open>In \<open>load_svg_image\<close> only \<open>CalledProcessError\<close> is caught around \<open>subprocess.run\<close>
  (\<open>check=True\<close> raises it for a status other than 0); the \<open>OSError\<close> of making the
  temporary directory and that of starting the binary leave the function.\<close>

definition load_svg_image :: "world \<Rightarrow> path \<Rightarrow> error + image" where
  "load_svg_image w source_path =
     (case which w ''convert'' of
        None \<Rightarrow>
          Inl (ValueError ''source is SVG but ImageMagick 'convert' is not installed'')
      | Some convert_bin \<Rightarrow>
          (if convert_bin = []
           then Inl (ValueError ''source is SVG but ImageMagick 'convert' is not installed'')
           else
             (case mkdtemp w ''videnoa-icon-'' of
                Inl err \<Rightarrow> Inl (OSError err)
              | Inr temp_dir \<Rightarrow>
                  (let rendered_png = temp_dir @ [''source-rendered.png''];
                       cmd = [convert_bin, path_str source_path, ''-background'', ''none'',
                              ''-resize'', ''1024x1024'', ''PNG32:'' @ path_str rendered_png]
                   in case subprocess_run w cmd of
                        NotStarted err \<Rightarrow> Inl (OSError err)
                      | Exited status \<Rightarrow>
                          (if status \<noteq> 0
                           then Inl (ValueError ''cannot rasterize SVG source'')
                           else
                             (case image_open w rendered_png of
                                Unidentified \<Rightarrow>
                                  Inl (ValueError
                                    (''rendered SVG is not a readable image: ''
                                       @ path_str source_path))
                              | Unreadable err \<Rightarrow>
                                  Inl (ValueError
                                    (''cannot read rendered SVG image: ''
                                       @ path_str source_path @ '': '' @ err))
                              | Invalid err \<Rightarrow> Inl (ValueError err)
                              | Refused err \<Rightarrow> Inl (OtherError err)
                              | Decoded fmt im \<Rightarrow> Inr im))))))"

definition load_source_image :: "world \<Rightarrow> path \<Rightarrow> error + image" where
  "load_source_image w source_path =
     (case path_exists w source_path of
        Inl err \<Rightarrow> Inl (OSError err)
      | Inr False \<Rightarrow>
          Inl (ValueError (''source file does not exist: '' @ path_str source_path))
      | Inr True \<Rightarrow>
          (case path_is_file w source_path of
             Inl err \<Rightarrow> Inl (OSError err)
           | Inr False \<Rightarrow>
               Inl (ValueError (''source path is not a file: '' @ path_str source_path))
           | Inr True \<Rightarrow>
               (let suffix = lower (path_suffix source_path)
                in case (if suffix = ''.png'' then load_png_image w source_path
                         else if suffix = ''.svg'' then load_svg_image w source_path
                         else Inl (ValueError
                                (''source must be a .svg or .png image: ''
                                   @ path_str source_path))) of
                     Inl e \<Rightarrow> Inl e
                   | Inr rgba \<Rightarrow>
                       (if width rgba \<noteq> height rgba
                        then Inl (ValueError
                               (''source image must be square, got ''
                                  @ str_nat (width rgba) @ ''x'' @ str_nat (height rgba)
                                  @ '': '' @ path_str source_path))
                        else Inr \<lparr>width = width rgba, height = height rgba,
                                  pixels = pixels rgba\<rparr>))))"

subsection \<open>Target writer\<close>

text \<open>Library behaviour (Pillow's ICO encoder): of the requested sizes, taken as a
  sorted set, a size wider or higher than the image, or above 256, is left out; when
  no size is left the encoder raises \<open>ValueError\<close>.\<close>

definition ico_embedded :: "image \<Rightarrow> (nat \<times> nat) list \<Rightarrow> (nat \<times> nat) list" where
  "ico_embedded im sizes =
     filter (\<lambda>(sw, sh). \<not> (sw > width im \<or> sh > height im \<or> sw > 256 \<or> sh > 256))
       (sorted_list_of_set (set sizes))"

definition encoder_error :: "world \<Rightarrow> file_content \<Rightarrow> error option" where
  "encoder_error w content =
     (case content of
        IcoFile im sizes \<Rightarrow>
          (if sizes = [] then Some (ValueError (ico_no_size_message w)) else None)
      | _ \<Rightarrow> None)"

text \<open>A write appends to the log of files written, in the order of the writes.  It
  raises the \<open>OSError\<close> of the file system (\<open>io_error\<close>) or what the encoder raises,
  and then leaves the log as it was.  \<open>write_ok\<close> says that a write raises nothing.\<close>

definition write_ok :: "world \<Rightarrow> path \<Rightarrow> file_content \<Rightarrow> bool" where
  "write_ok w output_path content =
     (io_error w output_path content = None \<and> encoder_error w content = None)"

definition write_file ::
  "world \<Rightarrow> path \<Rightarrow> file_content \<Rightarrow> log \<Rightarrow> error option \<times> log" where
  "write_file w output_path content fs =
     (case io_error w output_path content of
        Some err \<Rightarrow> (Some (OSError err), fs)
      | None \<Rightarrow>
          (case encoder_error w content of
             Some e \<Rightarrow> (Some e, fs)
           | None \<Rightarrow> (None, fs @ [(output_path, content)])))"

definition save_png ::
  "world \<Rightarrow> image \<Rightarrow> nat \<Rightarrow> path \<Rightarrow> log \<Rightarrow> error option \<times> log" where
  "save_png w source_image sz output_path fs =
     write_file w output_path
       (PngFile source_image sz (RESAMPLE_FILTER w) PNG_COMPRESS_LEVEL) fs"

definition save_ico :: "world \<Rightarrow> image \<Rightarrow> path \<Rightarrow> log \<Rightarrow> error option \<times> log" where
  "save_ico w source_image output_path fs =
     write_file w output_path
       (IcoFile source_image (ico_embedded source_image (map (\<lambda>sz. (sz, sz)) ICO_ENTRY_SIZES)))
       fs"

definition save_svg :: "world \<Rightarrow> path \<Rightarrow> path \<Rightarrow> log \<Rightarrow> error option \<times> log" where
  "save_svg w source_path output_path fs = write_file w output_path (CopyOf source_path) fs"

text \<open>The three inner loops of \<open>sync_targets\<close>.  The state is the list \<open>written\<close> and
  the log; an exception ends the loop with the state reached.\<close>

type_synonym sync_state = "path list \<times> log"

fun sync_png ::
  "world \<Rightarrow> image \<Rightarrow> (nat \<times> path) list \<Rightarrow> sync_state \<Rightarrow> error option \<times> sync_state" where
  "sync_png w source_image [] st = (None, st)"
| "sync_png w source_image ((sz, relative_path) # rest) (written, fs) =
     (let output_path = ROOT_DIR w @ relative_path
      in case save_png w source_image sz output_path fs of
           (Some e, fs') \<Rightarrow> (Some e, (written, fs'))
         | (None, fs') \<Rightarrow> sync_png w source_image rest (written @ [output_path], fs'))"

fun sync_ico ::
  "world \<Rightarrow> image \<Rightarrow> path list \<Rightarrow> sync_state \<Rightarrow> error option \<times> sync_state" where
  "sync_ico w source_image [] st = (None, st)"
| "sync_ico w source_image (relative_path # rest) (written, fs) =
     (let output_path = ROOT_DIR w @ relative_path
      in case save_ico w source_image output_path fs of
           (Some e, fs') \<Rightarrow> (Some e, (written, fs'))
         | (None, fs') \<Rightarrow> sync_ico w source_image rest (written @ [output_path], fs'))"

fun sync_svg ::
  "world \<Rightarrow> path \<Rightarrow> path list \<Rightarrow> sync_state \<Rightarrow> error option \<times> sync_state" where
  "sync_svg w source_path [] st = (None, st)"
| "sync_svg w source_path (relative_path # rest) (written, fs) =
     (let output_path = ROOT_DIR w @ relative_path
      in case save_svg w source_path output_path fs of
           (Some e, fs') \<Rightarrow> (Some e, (written, fs'))
         | (None, fs') \<Rightarrow> sync_svg w source_path rest (written @ [output_path], fs'))"

text \<open>The outer loop over the targets; \<open>MANAGED_TARGETS[target]\<close> raises \<open>KeyError\<close>
  for a name that is not a key.\<close>

fun sync_loop ::
  "world \<Rightarrow> image \<Rightarrow> path \<Rightarrow> bool \<Rightarrow> string list \<Rightarrow> sync_state
     \<Rightarrow> error option \<times> sync_state" where
  "sync_loop w source_image source_path source_is_svg [] st = (None, st)"
| "sync_loop w source_image source_path source_is_svg (target # rest) st =
     (case map_of MANAGED_TARGETS target of
        None \<Rightarrow> (Some (KeyError target), st)
      | Some config \<Rightarrow>
          (case sync_png w source_image (png config) st of
             (Some e, st1) \<Rightarrow> (Some e, st1)
           | (None, st1) \<Rightarrow>
               (case sync_ico w source_image (ico config) st1 of
                  (Some e, st2) \<Rightarrow> (Some e, st2)
                | (None, st2) \<Rightarrow>
                    (if source_is_svg
                     then
                       (case sync_svg w source_path (svg config) st2 of
                          (Some e, st3) \<Rightarrow> (Some e, st3)
                        | (None, st3) \<Rightarrow>
                            sync_loop w source_image source_path source_is_svg rest st3)
                     else sync_loop w source_image source_path source_is_svg rest st2))))"

text \<open>\<open>sync_targets\<close> returns the list \<open>written\<close>, or raises; in both cases the log
  holds the files written so far.\<close>

definition sync_targets ::
  "world \<Rightarrow> image \<Rightarrow> path \<Rightarrow> string list \<Rightarrow> log \<Rightarrow> (error + path list) \<times> log" where
  "sync_targets w source_image source_path ts fs =
     (let source_is_svg = (lower (path_suffix source_path) = ''.svg'')
      in case sync_loop w source_image source_path source_is_svg ts ([], fs) of
           (Some e, (written, fs')) \<Rightarrow> (Inl e, fs')
         | (None, (written, fs')) \<Rightarrow> (Inr written, fs'))"

subsection \<open>Orchestration\<close>

text \<open>\<open>main\<close>: the parser runs outside the \<open>try\<close> block, so its exit is not caught;
  inside the block only \<open>ValueError\<close> is caught, of the loader and of the writer alike.
  \<open>print\<close> ends its line with a newline.\<close>

definition main :: "world \<Rightarrow> string \<Rightarrow> string \<Rightarrow> run" where
  "main w source_arg targets_arg =
     (case parse_args w source_arg targets_arg of
        Inl r \<Rightarrow> r
      | Inr args \<Rightarrow>
          (let source_path = resolve_source w (source args)
           in case load_source_image w source_path of
                Inl (ValueError m) \<Rightarrow>
                  \<lparr>outcome = Exit 1, stdout = [],
                   stderr = ''error: '' @ m @ [CHR 0x0A], files = []\<rparr>
              | Inl e \<Rightarrow> \<lparr>outcome = Uncaught e, stdout = [], stderr = [], files = []\<rparr>
              | Inr source_image \<Rightarrow>
                  (case sync_targets w source_image source_path (targets args) [] of
                     (Inl (ValueError m), fs) \<Rightarrow>
                       \<lparr>outcome = Exit 1, stdout = [],
                        stderr = ''error: '' @ m @ [CHR 0x0A], files = fs\<rparr>
                   | (Inl e, fs) \<Rightarrow>
                       \<lparr>outcome = Uncaught e, stdout = [], stderr = [], files = fs\<rparr>
                   | (Inr written, fs) \<Rightarrow>
                       \<lparr>outcome = Exit 0,
                        stdout = ''synced '' @ str_nat (length written) @ '' icon files''
                                   @ [CHR 0x0A],
                        stderr = [], files = fs\<rparr>)))"

subsection \<open>Example worlds\<close>

text \<open>A world with one source file: \<open>--source\<close> resolves to \<open>src\<close>, the only path
  that exists; every image the library opens gives \<open>img\<close>; \<open>shutil.which\<close> answers
  \<open>conv\<close>; the rasteriser exits with 0 and the file system raises nothing.\<close>

definition example_world :: "path \<Rightarrow> open_result \<Rightarrow> string option \<Rightarrow> world" where
  "example_world src img conv =
     \<lparr>prog = ''sync_icons.py'',
      print_usage = ''usage: sync_icons.py [-h] --source SOURCE --targets TARGETS''
                      @ [CHR 0x0A],
      ROOT_DIR = [''repo''],
      Resampling_LANCZOS = Some 1, Image_LANCZOS = Some 1,
      resolve = (\<lambda>_. src),
      path_exists = (\<lambda>p. Inr (p = src)), path_is_file = (\<lambda>p. Inr (p = src)),
      image_open = (\<lambda>_. img), which = (\<lambda>_. conv),
      mkdtemp = (\<lambda>prefix. Inr [''tmp'', prefix @ ''k3f9'']),
      subprocess_run = (\<lambda>_. Exited 0), io_error = (\<lambda>_ _. None),
      ico_no_size_message = ''no size fits the image''\<rparr>"

definition square_image :: "nat \<Rightarrow> image" where
  "square_image n = \<lparr>width = n, height = n, pixels = []\<rparr>"

definition png_world :: "nat \<Rightarrow> nat \<Rightarrow> world" where
  "png_world wd ht =
     example_world [''repo'', ''assets'', ''icon.png'']
       (Decoded ''PNG'' \<lparr>width = wd, height = ht, pixels = []\<rparr>) None"

definition svg_world :: "string option \<Rightarrow> world" where
  "svg_world conv =
     example_world [''repo'', ''assets'', ''icon.SVG'']
       (Decoded ''PNG'' (square_image 1024)) conv"

section \<open>Specification-side definitions\<close>

text \<open>The definitions of this section are not translations of code: they restate, in
  closed form, what the specification says the parser and the writer produce, and the
  theorems compare them with the functions above.\<close>

text \<open>The specification's target list: ``order of first occurrence preserved,
  duplicates dropped''.\<close>

fun first_occurrences :: "'a list \<Rightarrow> 'a list" where
  "first_occurrences [] = []"
| "first_occurrences (x # xs) = x # first_occurrences (filter (\<lambda>y. y \<noteq> x) xs)"

text \<open>The writer's test for an SVG source, by the name of its local variable.\<close>

definition source_is_svg :: "path \<Rightarrow> bool" where
  "source_is_svg sp = (lower (path_suffix sp) = ''.svg'')"

text \<open>The specification's order of the written paths: ``targets in selection order;
  within a target, PNGs then ICO then SVG, in each list's declared order''.  The list
  stops at a name that is not in the registry.\<close>

definition target_paths :: "bool \<Rightarrow> TargetConfig \<Rightarrow> path list" where
  "target_paths is_svg c = map snd (png c) @ ico c @ (if is_svg then svg c else [])"

fun expected_written :: "world \<Rightarrow> bool \<Rightarrow> string list \<Rightarrow> path list" where
  "expected_written w is_svg [] = []"
| "expected_written w is_svg (t # ts) =
     (case map_of MANAGED_TARGETS t of
        None \<Rightarrow> []
      | Some c \<Rightarrow> map (\<lambda>rel. ROOT_DIR w @ rel) (target_paths is_svg c)
                   @ expected_written w is_svg ts)"

text \<open>The same order with the contents: the files a complete run of the writer adds
  to the log.\<close>

definition png_entries :: "world \<Rightarrow> image \<Rightarrow> (nat \<times> path) list \<Rightarrow> log" where
  "png_entries w img xs =
     map (\<lambda>(sz, rel). (ROOT_DIR w @ rel, PngFile img sz (RESAMPLE_FILTER w) PNG_COMPRESS_LEVEL)) xs"

definition ico_entries :: "world \<Rightarrow> image \<Rightarrow> path list \<Rightarrow> log" where
  "ico_entries w img xs =
     map (\<lambda>rel. (ROOT_DIR w @ rel,
            IcoFile img (ico_embedded img (map (\<lambda>s. (s, s)) ICO_ENTRY_SIZES)))) xs"

definition svg_entries :: "world \<Rightarrow> path \<Rightarrow> path list \<Rightarrow> log" where
  "svg_entries w sp xs = map (\<lambda>rel. (ROOT_DIR w @ rel, CopyOf sp)) xs"

definition target_entries :: "world \<Rightarrow> image \<Rightarrow> path \<Rightarrow> bool \<Rightarrow> TargetConfig \<Rightarrow> log" where
  "target_entries w img sp is_svg c =
     png_entries w img (png c) @ ico_entries w img (ico c)
       @ (if is_svg then svg_entries w sp (svg c) else [])"

fun expected_log :: "world \<Rightarrow> image \<Rightarrow> path \<Rightarrow> bool \<Rightarrow> string list \<Rightarrow> log" where
  "expected_log w img sp is_svg [] = []"
| "expected_log w img sp is_svg (t # ts) =
     (case map_of MANAGED_TARGETS t of
        None \<Rightarrow> []
      | Some c \<Rightarrow> target_entries w img sp is_svg c @ expected_log w img sp is_svg ts)"

text \<open>Every write of a list of files succeeds in a world.\<close>

definition writes_ok :: "world \<Rightarrow> log \<Rightarrow> bool" where
  "writes_ok w es = (\<forall>(p, c) \<in> set es. write_ok w p c)"

text \<open>What a loop of the writer has done when it stops, for the files \<open>es\<close> it is to
  write: the log and the list \<open>written\<close> have grown by the same initial part of \<open>es\<close>,
  by all of \<open>es\<close> when the loop ended without an exception.  An inner loop raises
  nothing but \<open>OSError\<close> and \<open>ValueError\<close>.\<close>

definition loop_post ::
  "log \<Rightarrow> sync_state \<Rightarrow> error option \<times> sync_state \<Rightarrow> bool" where
  "loop_post es st res =
     (case (st, res) of ((wr, fs), (r, (wr', fs'))) \<Rightarrow>
        (\<exists>new. fs' = fs @ new \<and> wr' = wr @ map fst new \<and> prefix new es
           \<and> (r = None \<longrightarrow> new = es)
           \<and> (\<forall>e. r = Some e \<longrightarrow> (\<exists>m. e = OSError m \<or> e = ValueError m))))"

definition sync_post ::
  "log \<Rightarrow> sync_state \<Rightarrow> error option \<times> sync_state \<Rightarrow> bool" where
  "sync_post es st res =
     (case (st, res) of ((wr, fs), (r, (wr', fs'))) \<Rightarrow>
        (\<exists>new. fs' = fs @ new \<and> wr' = wr @ map fst new \<and> prefix new es
           \<and> (r = None \<longrightarrow> new = es)))"

section \<open>Properties\<close>

subsection \<open>The loop that drops repeated names\<close>

lemma set_first_occurrences: "set (first_occurrences xs) = set xs"
  by (induction xs rule: first_occurrences.induct) auto


lemma dedupe_loop_acc:
  "dedupe_loop xs acc (set acc) = acc @ first_occurrences (filter (\<lambda>x. x \<notin> set acc) xs)"
proof (induction xs arbitrary: acc)
  case Nil
  then show ?case by simp
next
  case (Cons x xs)
  show ?case
  proof (cases "x \<in> set acc")
    case True
    then show ?thesis using Cons.IH [of acc] by simp
  next
    case False
    have "dedupe_loop (x # xs) acc (set acc) = dedupe_loop xs (acc @ [x]) (set (acc @ [x]))"
      using False by simp
    also have "\<dots> = (acc @ [x]) @ first_occurrences (filter (\<lambda>y. y \<notin> set (acc @ [x])) xs)"
      by (rule Cons.IH)
    also have "filter (\<lambda>y. y \<notin> set (acc @ [x])) xs
        = filter (\<lambda>y. y \<noteq> x) (filter (\<lambda>y. y \<notin> set acc) xs)"
      by (auto intro: filter_cong)
    finally show ?thesis using False by simp
  qed
qed

lemma dedupe_loop_first_occurrences: "dedupe_loop xs [] {} = first_occurrences xs"
  using dedupe_loop_acc [of xs "[]"] by simp

subsection \<open>The registry, and the parser on some values\<close>

lemma known_eq: "known = {''web'', ''desktop''}"
  by (auto simp: known_def MANAGED_TARGETS_def)

lemma sorted_known: "sorted_list_of_set known = [''desktop'', ''web'']"
  by code_simp

lemma parse_dup: "parse_targets ''web,desktop,web'' = Inr [''web'', ''desktop'']"
  by code_simp

lemma parse_web: "parse_targets ''web'' = Inr [''web'']"
  by code_simp


subsection \<open>The loops of the writer\<close>

lemma writes_ok_append [simp]: "writes_ok w (xs @ ys) \<longleftrightarrow> writes_ok w xs \<and> writes_ok w ys"
  by (auto simp: writes_ok_def)

lemma writes_ok_Cons [simp]: "writes_ok w ((p, c) # ys) \<longleftrightarrow> write_ok w p c \<and> writes_ok w ys"
  by (auto simp: writes_ok_def)

lemma writes_ok_Nil [simp]: "writes_ok w []"
  by (simp add: writes_ok_def)

lemma write_file_ok: "write_ok w p c \<Longrightarrow> write_file w p c fs = (None, fs @ [(p, c)])"
  by (simp add: write_file_def write_ok_def)

lemma write_file_fails:
  "\<not> write_ok w p c \<Longrightarrow>
     \<exists>e. write_file w p c fs = (Some e, fs) \<and> (\<exists>m. e = OSError m \<or> e = ValueError m)"
  by (auto simp: write_file_def write_ok_def encoder_error_def
      split: option.splits file_content.splits if_splits)

lemma loop_post_step:
  assumes "loop_post es (wr @ [p], fs @ [(p, c)]) res"
  shows "loop_post ((p, c) # es) (wr, fs) res"
  using assms unfolding loop_post_def
  by (cases res) (auto simp: prefix_def)

lemma sync_png_post: "loop_post (png_entries w img xs) st (sync_png w img xs st)"
proof (induction xs arbitrary: st)
  case Nil
  show ?case by (cases st) (simp add: loop_post_def png_entries_def)
next
  case (Cons x xs)
  obtain sz rel where x: "x = (sz, rel)" by (cases x)
  obtain wr fs where st: "st = (wr, fs)" by (cases st)
  let ?p = "ROOT_DIR w @ rel"
  let ?c = "PngFile img sz (RESAMPLE_FILTER w) PNG_COMPRESS_LEVEL"
  have es: "png_entries w img (x # xs) = (?p, ?c) # png_entries w img xs"
    by (simp add: png_entries_def x)
  show ?case
  proof (cases "write_ok w ?p ?c")
    case True
    then have "sync_png w img (x # xs) st = sync_png w img xs (wr @ [?p], fs @ [(?p, ?c)])"
      by (simp add: x st save_png_def write_file_ok Let_def)
    then show ?thesis
      unfolding es st using Cons.IH [of "(wr @ [?p], fs @ [(?p, ?c)])"]
      by (simp add: loop_post_step)
  next
    case False
    from write_file_fails [OF this, of fs] obtain e where
      wf: "write_file w ?p ?c fs = (Some e, fs)" and e: "\<exists>m. e = OSError m \<or> e = ValueError m"
      by blast
    have "sync_png w img (x # xs) st = (Some e, (wr, fs))"
      by (simp add: x st save_png_def wf Let_def)
    then show ?thesis
      unfolding es st using e by (simp add: loop_post_def)
  qed
qed

lemma sync_ico_post: "loop_post (ico_entries w img xs) st (sync_ico w img xs st)"
proof (induction xs arbitrary: st)
  case Nil
  show ?case by (cases st) (simp add: loop_post_def ico_entries_def)
next
  case (Cons rel xs)
  obtain wr fs where st: "st = (wr, fs)" by (cases st)
  let ?p = "ROOT_DIR w @ rel"
  let ?c = "IcoFile img (ico_embedded img (map (\<lambda>s. (s, s)) ICO_ENTRY_SIZES))"
  have es: "ico_entries w img (rel # xs) = (?p, ?c) # ico_entries w img xs"
    by (simp add: ico_entries_def)
  show ?case
  proof (cases "write_ok w ?p ?c")
    case True
    then have "sync_ico w img (rel # xs) st = sync_ico w img xs (wr @ [?p], fs @ [(?p, ?c)])"
      by (simp add: st save_ico_def write_file_ok Let_def)
    then show ?thesis
      unfolding es st using Cons.IH [of "(wr @ [?p], fs @ [(?p, ?c)])"]
      by (simp add: loop_post_step)
  next
    case False
    from write_file_fails [OF this, of fs] obtain e where
      wf: "write_file w ?p ?c fs = (Some e, fs)" and e: "\<exists>m. e = OSError m \<or> e = ValueError m"
      by blast
    have "sync_ico w img (rel # xs) st = (Some e, (wr, fs))"
      by (simp add: st save_ico_def wf Let_def)
    then show ?thesis
      unfolding es st using e by (simp add: loop_post_def)
  qed
qed

lemma sync_svg_post: "loop_post (svg_entries w sp xs) st (sync_svg w sp xs st)"
proof (induction xs arbitrary: st)
  case Nil
  show ?case by (cases st) (simp add: loop_post_def svg_entries_def)
next
  case (Cons rel xs)
  obtain wr fs where st: "st = (wr, fs)" by (cases st)
  let ?p = "ROOT_DIR w @ rel"
  let ?c = "CopyOf sp"
  have es: "svg_entries w sp (rel # xs) = (?p, ?c) # svg_entries w sp xs"
    by (simp add: svg_entries_def)
  show ?case
  proof (cases "write_ok w ?p ?c")
    case True
    then have "sync_svg w sp (rel # xs) st = sync_svg w sp xs (wr @ [?p], fs @ [(?p, ?c)])"
      by (simp add: st save_svg_def write_file_ok Let_def)
    then show ?thesis
      unfolding es st using Cons.IH [of "(wr @ [?p], fs @ [(?p, ?c)])"]
      by (simp add: loop_post_step)
  next
    case False
    from write_file_fails [OF this, of fs] obtain e where
      wf: "write_file w ?p ?c fs = (Some e, fs)" and e: "\<exists>m. e = OSError m \<or> e = ValueError m"
      by blast
    have "sync_svg w sp (rel # xs) st = (Some e, (wr, fs))"
      by (simp add: st save_svg_def wf Let_def)
    then show ?thesis
      unfolding es st using e by (simp add: loop_post_def)
  qed
qed

lemma loop_post_sync_post: "loop_post es st res \<Longrightarrow> sync_post es st res"
  unfolding loop_post_def sync_post_def by (cases st; cases res) auto

lemma sync_post_fail:
  assumes "sync_post es st (Some e, st')"
  shows "sync_post (es @ others) st (Some e, st')"
  using assms unfolding sync_post_def
  by (cases st; cases st') (auto simp: prefix_def)

lemma sync_post_seq:
  assumes "loop_post es st (None, st')" and "sync_post es' st' res"
  shows "sync_post (es @ es') st res"
  using assms unfolding loop_post_def sync_post_def
  by (cases st; cases st'; cases res) (auto simp: prefix_def)

lemma sync_loop_post:
  "sync_post (expected_log w img sp is_svg ts) st (sync_loop w img sp is_svg ts st)"
proof (induction ts arbitrary: st)
  case Nil
  show ?case by (cases st) (simp add: sync_post_def)
next
  case (Cons t ts)
  show ?case
  proof (cases "map_of MANAGED_TARGETS t")
    case None
    then show ?thesis by (cases st) (simp add: sync_post_def)
  next
    case (Some c)
    obtain r1 st1 where r1: "sync_png w img (png c) st = (r1, st1)" by (cases "sync_png w img (png c) st")
    have p1: "loop_post (png_entries w img (png c)) st (r1, st1)"
      using sync_png_post [of w img "png c" st] r1 by simp
    obtain r2 st2 where r2: "sync_ico w img (ico c) st1 = (r2, st2)" by (cases "sync_ico w img (ico c) st1")
    have p2: "loop_post (ico_entries w img (ico c)) st1 (r2, st2)"
      using sync_ico_post [of w img "ico c" st1] r2 by simp
    obtain r3 st3 where r3: "sync_svg w sp (svg c) st2 = (r3, st3)" by (cases "sync_svg w sp (svg c) st2")
    have p3: "loop_post (svg_entries w sp (svg c)) st2 (r3, st3)"
      using sync_svg_post [of w sp "svg c" st2] r3 by simp
    let ?rest = "expected_log w img sp is_svg ts"
    have ex: "expected_log w img sp is_svg (t # ts)
        = png_entries w img (png c) @ (ico_entries w img (ico c)
            @ ((if is_svg then svg_entries w sp (svg c) else []) @ ?rest))"
      by (simp add: Some target_entries_def)
    show ?thesis
    proof (cases r1)
      case (Some e)
      then have "sync_loop w img sp is_svg (t # ts) st = (Some e, st1)"
        by (simp add: \<open>map_of MANAGED_TARGETS t = Some c\<close> r1)
      then show ?thesis unfolding ex
        using sync_post_fail [OF loop_post_sync_post [OF p1 [unfolded Some]]] by simp
    next
      case None
      note n1 = this
      show ?thesis
      proof (cases r2)
        case (Some e)
        then have "sync_loop w img sp is_svg (t # ts) st = (Some e, st2)"
          by (simp add: \<open>map_of MANAGED_TARGETS t = Some c\<close> r1 r2 n1)
        then show ?thesis unfolding ex
          using sync_post_seq [OF p1 [unfolded n1]
                  sync_post_fail [OF loop_post_sync_post [OF p2 [unfolded Some]]]]
          by simp
      next
        case None
        note n2 = this
        show ?thesis
        proof (cases is_svg)
          case False
          then have "sync_loop w img sp is_svg (t # ts) st = sync_loop w img sp is_svg ts st2"
            by (simp add: \<open>map_of MANAGED_TARGETS t = Some c\<close> r1 r2 n1 n2)
          then show ?thesis unfolding ex
            using sync_post_seq [OF p1 [unfolded n1] sync_post_seq [OF p2 [unfolded n2] Cons.IH [of st2]]]
              False by simp
        next
          case True
          show ?thesis
          proof (cases r3)
            case (Some e)
            then have "sync_loop w img sp is_svg (t # ts) st = (Some e, st3)"
              using True by (simp add: \<open>map_of MANAGED_TARGETS t = Some c\<close> r1 r2 r3 n1 n2)
            then show ?thesis unfolding ex
              using sync_post_seq [OF p1 [unfolded n1] sync_post_seq [OF p2 [unfolded n2]
                     sync_post_fail [OF loop_post_sync_post [OF p3 [unfolded Some]]]]]
                True by simp
          next
            case None
            then have "sync_loop w img sp is_svg (t # ts) st = sync_loop w img sp is_svg ts st3"
              using True by (simp add: \<open>map_of MANAGED_TARGETS t = Some c\<close> r1 r2 r3 n1 n2)
            then show ?thesis unfolding ex
              using sync_post_seq [OF p1 [unfolded n1] sync_post_seq [OF p2 [unfolded n2]
                     sync_post_seq [OF p3 [unfolded None] Cons.IH [of st3]]]]
                True by simp
          qed
        qed
      qed
    qed
  qed
qed

lemma known_lookup: "t \<in> known \<longleftrightarrow> map_of MANAGED_TARGETS t \<noteq> None"
  unfolding known_def by (simp add: map_of_eq_None_iff)

lemma sync_png_ok:
  "writes_ok w (png_entries w img xs) \<Longrightarrow> fst (sync_png w img xs st) = None"
proof (induction xs arbitrary: st)
  case Nil
  show ?case by simp
next
  case (Cons x xs)
  obtain sz rel where x: "x = (sz, rel)" by (cases x)
  obtain wr fs where st: "st = (wr, fs)" by (cases st)
  from Cons.prems have ok: "write_ok w (ROOT_DIR w @ rel)
      (PngFile img sz (RESAMPLE_FILTER w) PNG_COMPRESS_LEVEL)"
    and rest: "writes_ok w (png_entries w img xs)"
    by (simp_all add: png_entries_def x)
  show ?case
    using Cons.IH [OF rest] by (simp add: x st save_png_def write_file_ok [OF ok] Let_def)
qed

lemma sync_ico_ok:
  "writes_ok w (ico_entries w img xs) \<Longrightarrow> fst (sync_ico w img xs st) = None"
proof (induction xs arbitrary: st)
  case Nil
  show ?case by simp
next
  case (Cons rel xs)
  obtain wr fs where st: "st = (wr, fs)" by (cases st)
  from Cons.prems have ok: "write_ok w (ROOT_DIR w @ rel)
      (IcoFile img (ico_embedded img (map (\<lambda>s. (s, s)) ICO_ENTRY_SIZES)))"
    and rest: "writes_ok w (ico_entries w img xs)"
    by (simp_all add: ico_entries_def)
  show ?case
    using Cons.IH [OF rest] by (simp add: st save_ico_def write_file_ok [OF ok] Let_def)
qed

lemma sync_svg_ok:
  "writes_ok w (svg_entries w sp xs) \<Longrightarrow> fst (sync_svg w sp xs st) = None"
proof (induction xs arbitrary: st)
  case Nil
  show ?case by simp
next
  case (Cons rel xs)
  obtain wr fs where st: "st = (wr, fs)" by (cases st)
  from Cons.prems have ok: "write_ok w (ROOT_DIR w @ rel) (CopyOf sp)"
    and rest: "writes_ok w (svg_entries w sp xs)"
    by (simp_all add: svg_entries_def)
  show ?case
    using Cons.IH [OF rest] by (simp add: st save_svg_def write_file_ok [OF ok] Let_def)
qed

lemma sync_loop_ok:
  "writes_ok w (expected_log w img sp is_svg ts) \<Longrightarrow> set ts \<subseteq> known
     \<Longrightarrow> fst (sync_loop w img sp is_svg ts st) = None"
proof (induction ts arbitrary: st)
  case Nil
  show ?case by simp
next
  case (Cons t ts)
  from Cons.prems(2) obtain c where c: "map_of MANAGED_TARGETS t = Some c"
    using known_lookup [of t] by auto
  from Cons.prems(1) c have
    ok1: "writes_ok w (png_entries w img (png c))" and
    ok2: "writes_ok w (ico_entries w img (ico c))" and
    ok3: "is_svg \<Longrightarrow> writes_ok w (svg_entries w sp (svg c))" and
    rest: "writes_ok w (expected_log w img sp is_svg ts)"
    by (simp_all add: target_entries_def)
  from Cons.prems(2) have sub: "set ts \<subseteq> known" by simp
  obtain r1 st1 where r1: "sync_png w img (png c) st = (r1, st1)"
    by (cases "sync_png w img (png c) st")
  obtain r2 st2 where r2: "sync_ico w img (ico c) st1 = (r2, st2)"
    by (cases "sync_ico w img (ico c) st1")
  obtain r3 st3 where r3: "sync_svg w sp (svg c) st2 = (r3, st3)"
    by (cases "sync_svg w sp (svg c) st2")
  have n1: "r1 = None" using sync_png_ok [OF ok1, of st] r1 by simp
  have n2: "r2 = None" using sync_ico_ok [OF ok2, of st1] r2 by simp
  have n3: "is_svg \<Longrightarrow> r3 = None" using sync_svg_ok [OF ok3, of st2] r3 by simp
  show ?case
  proof (cases is_svg)
    case True
    have "sync_loop w img sp is_svg (t # ts) st = sync_loop w img sp is_svg ts st3"
      using True n3 by (simp add: c r1 r2 r3 n1 n2)
    then show ?thesis using Cons.IH [OF rest sub, of st3] by simp
  next
    case False
    have "sync_loop w img sp is_svg (t # ts) st = sync_loop w img sp is_svg ts st2"
      using False by (simp add: c r1 r2 n1 n2)
    then show ?thesis using Cons.IH [OF rest sub, of st2] by simp
  qed
qed

lemma loop_post_error:
  "loop_post es st (Some e, st') \<Longrightarrow> \<exists>m. e = OSError m \<or> e = ValueError m"
  unfolding loop_post_def by (cases st; cases st') auto

lemma sync_loop_error:
  "sync_loop w img sp is_svg ts st = (Some e, st')
     \<Longrightarrow> (\<exists>m. e = OSError m \<or> e = ValueError m)
         \<or> (\<exists>t \<in> set ts. map_of MANAGED_TARGETS t = None \<and> e = KeyError t)"
proof (induction ts arbitrary: st)
  case Nil
  then show ?case by simp
next
  case (Cons t ts)
  show ?case
  proof (cases "map_of MANAGED_TARGETS t")
    case None
    then show ?thesis using Cons.prems by auto
  next
    case (Some c)
    obtain r1 st1 where r1: "sync_png w img (png c) st = (r1, st1)"
      by (cases "sync_png w img (png c) st")
    obtain r2 st2 where r2: "sync_ico w img (ico c) st1 = (r2, st2)"
      by (cases "sync_ico w img (ico c) st1")
    obtain r3 st3 where r3: "sync_svg w sp (svg c) st2 = (r3, st3)"
      by (cases "sync_svg w sp (svg c) st2")
    have e1: "r1 = Some e' \<Longrightarrow> \<exists>m. e' = OSError m \<or> e' = ValueError m" for e'
      using sync_png_post [of w img "png c" st] r1 loop_post_error by metis
    have e2: "r2 = Some e' \<Longrightarrow> \<exists>m. e' = OSError m \<or> e' = ValueError m" for e'
      using sync_ico_post [of w img "ico c" st1] r2 loop_post_error by metis
    have e3: "r3 = Some e' \<Longrightarrow> \<exists>m. e' = OSError m \<or> e' = ValueError m" for e'
      using sync_svg_post [of w sp "svg c" st2] r3 loop_post_error by metis
    have step: "sync_loop w img sp is_svg (t # ts) st =
        (case r1 of Some e1 \<Rightarrow> (Some e1, st1)
         | None \<Rightarrow> (case r2 of Some e2 \<Rightarrow> (Some e2, st2)
            | None \<Rightarrow> (if is_svg
                 then (case r3 of Some e3 \<Rightarrow> (Some e3, st3)
                       | None \<Rightarrow> sync_loop w img sp is_svg ts st3)
                 else sync_loop w img sp is_svg ts st2)))"
      by (simp add: Some r1 r2 r3 split: option.splits)
    define rec where "rec s \<longleftrightarrow> sync_loop w img sp is_svg ts s = (Some e, st')" for s
    from Cons.prems [unfolded step] have
      "r1 = Some e \<or> r2 = Some e \<or> r3 = Some e \<or> rec st3 \<or> rec st2"
      unfolding rec_def by (cases r1; cases r2; cases r3; cases is_svg) simp_all
    moreover have "rec s \<Longrightarrow> ?thesis" for s
      unfolding rec_def using Cons.IH [of s] by auto
    ultimately show ?thesis
      using e1 e2 e3 by blast
  qed
qed

lemma sync_targets_shape:
  assumes "sync_targets w img sp ts fs = (r, fs')"
  shows "\<exists>new. fs' = fs @ new \<and> prefix new (expected_log w img sp (source_is_svg sp) ts)
           \<and> (\<forall>written. r = Inr written \<longrightarrow>
                 new = expected_log w img sp (source_is_svg sp) ts \<and> written = map fst new)"
proof -
  let ?loop = "sync_loop w img sp (source_is_svg sp) ts ([], fs)"
  obtain r0 wr0 fs0 where l: "?loop = (r0, (wr0, fs0))"
    by (metis prod.exhaust)
  have post: "sync_post (expected_log w img sp (source_is_svg sp) ts) ([], fs) (r0, (wr0, fs0))"
    using sync_loop_post [of w img sp "source_is_svg sp" ts "([], fs)"] l by simp
  from assms l have r: "r = (case r0 of Some e \<Rightarrow> Inl e | None \<Rightarrow> Inr wr0)" and f: "fs' = fs0"
    by (auto simp: sync_targets_def source_is_svg_def split: option.splits)
  from post show ?thesis
    unfolding sync_post_def f r by (auto split: option.splits)
qed

lemma sync_targets_ok:
  assumes "writes_ok w (expected_log w img sp (source_is_svg sp) ts)" and "set ts \<subseteq> known"
  shows "sync_targets w img sp ts fs
           = (Inr (map fst (expected_log w img sp (source_is_svg sp) ts)),
              fs @ expected_log w img sp (source_is_svg sp) ts)"
proof -
  let ?loop = "sync_loop w img sp (source_is_svg sp) ts ([], fs)"
  obtain r0 wr0 fs0 where l: "?loop = (r0, (wr0, fs0))"
    by (metis prod.exhaust)
  have n: "r0 = None"
    using sync_loop_ok [OF assms, of "([], fs)"] l by simp
  have st: "sync_targets w img sp ts fs = (Inr wr0, fs0)"
    using l n by (simp add: sync_targets_def source_is_svg_def)
  from sync_targets_shape [OF st] show ?thesis
    unfolding st by auto
qed

lemma sync_targets_error:
  assumes "sync_targets w img sp ts fs = (Inl e, fs')"
  shows "(\<exists>m. e = OSError m \<or> e = ValueError m)
     \<or> (\<exists>t \<in> set ts. map_of MANAGED_TARGETS t = None \<and> e = KeyError t)"
proof -
  let ?loop = "sync_loop w img sp (source_is_svg sp) ts ([], fs)"
  obtain r0 wr0 fs0 where l: "?loop = (r0, (wr0, fs0))"
    by (metis prod.exhaust)
  from assms l have "r0 = Some e"
    by (auto simp: sync_targets_def source_is_svg_def split: option.splits)
  with l sync_loop_error show ?thesis by blast
qed

subsection \<open>When the parser accepts\<close>

lemma parse_targets_Inr:
  "parse_targets v = Inr ts \<longleftrightarrow>
     raw_targets v \<noteq> [] \<and> set (raw_targets v) \<subseteq> known \<and> ts = first_occurrences (raw_targets v)"
proof -
  have fin: "finite (set (raw_targets v) - known)" by simp
  have "sorted_list_of_set (set (raw_targets v) - known) = [] \<longleftrightarrow> set (raw_targets v) \<subseteq> known"
    using sorted_list_of_set_eq_Nil_iff [OF fin] by auto
  then show ?thesis
    by (auto simp: parse_targets_def Let_def dedupe_loop_first_occurrences)
qed

lemma parse_targets_unknown:
  assumes "\<not> set (raw_targets v) \<subseteq> known"
  shows "parse_targets v = Inl (ArgumentTypeError
           (''unknown target(s): '' @ join '','' (sorted_list_of_set (set (raw_targets v) - known))
              @ ''. Supported targets: desktop,web''))"
proof -
  have fin: "finite (set (raw_targets v) - known)" by simp
  have ne: "sorted_list_of_set (set (raw_targets v) - known) \<noteq> []"
    using sorted_list_of_set_eq_Nil_iff [OF fin] assms by auto
  from assms have "raw_targets v \<noteq> []" by auto
  then show ?thesis
    using ne by (simp add: parse_targets_def Let_def sorted_known)
qed


subsection \<open>The paths of the log\<close>

lemma target_entries_paths:
  "map fst (target_entries w img sp b c) = map (\<lambda>rel. ROOT_DIR w @ rel) (target_paths b c)"
  by (simp add: target_entries_def target_paths_def png_entries_def ico_entries_def
      svg_entries_def comp_def case_prod_beta)

lemma expected_log_paths:
  "map fst (expected_log w img sp b ts) = expected_written w b ts"
  by (induction ts) (simp_all add: target_entries_paths split: option.splits)

lemma lookup_web:
  "map_of MANAGED_TARGETS ''web'' = Some
     \<lparr>png = [(16, [''web'', ''public'', ''favicon-16x16.png'']),
             (32, [''web'', ''public'', ''favicon-32x32.png'']),
             (512, [''web'', ''public'', ''videnoa_icon.png''])],
      ico = [[''web'', ''public'', ''favicon.ico'']],
      svg = [[''web'', ''public'', ''favicon.svg'']]\<rparr>"
  by (simp add: MANAGED_TARGETS_def)

lemma lookup_desktop:
  "map_of MANAGED_TARGETS ''desktop'' = Some
     \<lparr>png = [(512, [''crates'', ''desktop'', ''icons'', ''icon.png'']),
             (32, [''crates'', ''desktop'', ''icons'', ''icon-32.png'']),
             (64, [''crates'', ''desktop'', ''icons'', ''icon-64.png'']),
             (128, [''crates'', ''desktop'', ''icons'', ''icon-128.png'']),
             (256, [''crates'', ''desktop'', ''icons'', ''icon-256.png''])],
      ico = [[''crates'', ''desktop'', ''icons'', ''icon.ico'']],
      svg = []\<rparr>"
  by (simp add: MANAGED_TARGETS_def)



subsection \<open>The loader raises only ValueError; the cases of main\<close>

lemma load_png_error:
  "load_png_image w sp = Inl e \<Longrightarrow> \<exists>m. e = ValueError m \<or> e = OtherError m"
  by (auto simp: load_png_image_def split: open_result.splits if_splits)

lemma load_svg_error:
  "load_svg_image w sp = Inl e \<Longrightarrow> \<exists>m. e = ValueError m \<or> e = OSError m \<or> e = OtherError m"
  by (auto simp: load_svg_image_def Let_def
      split: option.splits sum.splits run_result.splits open_result.splits if_splits)

lemma load_source_error:
  "load_source_image w sp = Inl e \<Longrightarrow> \<exists>m. e = ValueError m \<or> e = OSError m \<or> e = OtherError m"
  unfolding load_source_image_def Let_def
  by (auto split: if_splits sum.splits bool.splits dest: load_png_error load_svg_error)

lemma load_source_square: "load_source_image w sp = Inr img \<Longrightarrow> width img = height img"
  unfolding load_source_image_def Let_def
  by (auto split: if_splits sum.splits bool.splits)

lemma parse_targets_error: "parse_targets v = Inl e \<Longrightarrow> \<exists>m. e = ArgumentTypeError m"
  by (auto simp: parse_targets_def Let_def split: if_splits)

lemma main_parse_fail:
  assumes "parse_targets v = Inl (ArgumentTypeError m)"
  shows "main w s v = parser_error w (''argument --targets: '' @ m)"
  using assms by (simp add: main_def parse_args_def)

lemma main_load_fail:
  assumes "parse_targets v = Inr ts"
    and "load_source_image w (resolve_source w s) = Inl (ValueError m)"
  shows "main w s v =
     \<lparr>outcome = Exit 1, stdout = [], stderr = ''error: '' @ m @ [CHR 0x0A], files = []\<rparr>"
  using assms by (simp add: main_def parse_args_def Let_def)

lemma main_sync_ok:
  assumes "parse_targets v = Inr ts"
    and "load_source_image w (resolve_source w s) = Inr img"
    and "sync_targets w img (resolve_source w s) ts [] = (Inr written, fs)"
  shows "main w s v =
     \<lparr>outcome = Exit 0,
      stdout = ''synced '' @ str_nat (length written) @ '' icon files'' @ [CHR 0x0A],
      stderr = [], files = fs\<rparr>"
  using assms by (simp add: main_def parse_args_def Let_def)

lemma main_load_uncaught:
  assumes "parse_targets v = Inr ts"
    and "load_source_image w (resolve_source w s) = Inl e" and "\<forall>m. e \<noteq> ValueError m"
  shows "main w s v = \<lparr>outcome = Uncaught e, stdout = [], stderr = [], files = []\<rparr>"
  using assms by (cases e) (simp_all add: main_def parse_args_def Let_def)

lemma main_sync_handled:
  assumes "parse_targets v = Inr ts"
    and "load_source_image w (resolve_source w s) = Inr img"
    and "sync_targets w img (resolve_source w s) ts [] = (Inl (ValueError m), fs)"
  shows "main w s v =
     \<lparr>outcome = Exit 1, stdout = [], stderr = ''error: '' @ m @ [CHR 0x0A], files = fs\<rparr>"
  using assms by (simp add: main_def parse_args_def Let_def)

lemma main_sync_fail:
  assumes "parse_targets v = Inr ts"
    and "load_source_image w (resolve_source w s) = Inr img"
    and "sync_targets w img (resolve_source w s) ts [] = (Inl e, fs)"
    and "\<forall>m. e \<noteq> ValueError m"
  shows "main w s v = \<lparr>outcome = Uncaught e, stdout = [], stderr = [], files = fs\<rparr>"
  using assms by (cases e) (simp_all add: main_def parse_args_def Let_def)

subsection \<open>Suffixes and their case\<close>

lemma lower_char_dot: "lower_char c = CHR ''.'' \<longleftrightarrow> c = CHR ''.''"
proof
  assume h: "lower_char c = CHR ''.''"
  let ?n = "of_char c :: nat"
  show "c = CHR ''.''"
  proof (cases "(65 \<le> ?n \<and> ?n \<le> 90) \<or> (192 \<le> ?n \<and> ?n \<le> 222 \<and> ?n \<noteq> 215)")
    case False
    then show ?thesis using h by (auto simp: lower_char_def Let_def split: if_splits)
  next
    case True
    then have "char_of (?n + 32) = CHR ''.''"
      using h by (simp add: lower_char_def Let_def)
    then have "(of_char (char_of (?n + 32) :: char) :: nat) = of_char CHR ''.''"
      by simp
    then have "(?n + 32) mod 256 = 46"
      by (simp add: of_char_of)
    moreover from True have "?n + 32 < 256" by auto
    ultimately have "?n + 32 = 46" by simp
    with True have False by auto
    then show ?thesis ..
  qed
next
  assume "c = CHR ''.''"
  then show "lower_char c = CHR ''.''" by (simp add: lower_char_def)
qed

lemma rfind_absent: "c \<notin> set ys \<Longrightarrow> rfind c ys = None"
  by (induction ys) auto

lemma rfind_last: "c \<notin> set ys \<Longrightarrow> rfind c (xs @ c # ys) = Some (length xs)"
  by (induction xs) (simp_all add: rfind_absent)

lemma path_suffix_ext:
  assumes "stem \<noteq> []" and "CHR ''.'' \<notin> set rest" and "rest \<noteq> []"
  shows "path_suffix (dir @ [stem @ CHR ''.'' # rest]) = CHR ''.'' # rest"
  using assms by (simp add: path_suffix_def path_name_def rfind_last Let_def)

lemma lower_ext_shape:
  assumes "lower ext = CHR ''.'' # l" and "CHR ''.'' \<notin> set l" and "l \<noteq> []"
  shows "\<exists>rest. ext = CHR ''.'' # rest \<and> CHR ''.'' \<notin> set rest \<and> rest \<noteq> []"
proof -
  from assms(1) obtain a rest where ext: "ext = a # rest" and a: "lower_char a = CHR ''.''"
    and rest: "map lower_char rest = l"
    by (auto simp: lower_def)
  have "a = CHR ''.''" using a by (simp add: lower_char_dot)
  moreover have "CHR ''.'' \<notin> set rest"
  proof
    assume "CHR ''.'' \<in> set rest"
    then have "lower_char CHR ''.'' \<in> set (map lower_char rest)" by simp
    then show False using rest assms(2) by (simp add: lower_char_dot [THEN iffD2])
  qed
  moreover have "rest \<noteq> []" using rest assms(3) by auto
  ultimately show ?thesis using ext by simp
qed

lemma path_suffix_any_case:
  assumes "stem \<noteq> []" and "lower ext = CHR ''.'' # l" and "CHR ''.'' \<notin> set l" and "l \<noteq> []"
  shows "path_suffix (dir @ [stem @ ext]) = ext"
proof -
  from lower_ext_shape [OF assms(2-4)] obtain rest where
    "ext = CHR ''.'' # rest" "CHR ''.'' \<notin> set rest" "rest \<noteq> []" by blast
  then show ?thesis using path_suffix_ext [OF assms(1), of rest dir] by simp
qed

lemma lower_SVG: "lower ''.SVG'' = ''.svg''" by code_simp

lemma lower_PNG: "lower ''.PNG'' = ''.png''" by code_simp

lemma lower_png: "lower ''.png'' = ''.png''" by code_simp

subsection \<open>Facts about the example worlds\<close>

lemma suffix_icon_png: "path_suffix [''repo'', ''assets'', ''icon.png''] = ''.png''"
  by (simp add: path_suffix_def path_name_def)

lemma suffix_icon_SVG: "path_suffix [''repo'', ''assets'', ''icon.SVG''] = ''.SVG''"
  by (simp add: path_suffix_def path_name_def)

lemma png_world_simps:
  "resolve_source (png_world a b) s = [''repo'', ''assets'', ''icon.png'']"
  "path_exists (png_world a b) [''repo'', ''assets'', ''icon.png''] = Inr True"
  "path_is_file (png_world a b) [''repo'', ''assets'', ''icon.png''] = Inr True"
  "load_png_image (png_world a b) p = Inr \<lparr>width = a, height = b, pixels = []\<rparr>"
  "io_error (png_world a b) q c = None"
  "ROOT_DIR (png_world a b) = [''repo'']"
  by (simp_all add: png_world_def example_world_def resolve_source_def load_png_image_def)

lemma svg_world_simps:
  "resolve_source (svg_world conv) s = [''repo'', ''assets'', ''icon.SVG'']"
  "path_exists (svg_world conv) [''repo'', ''assets'', ''icon.SVG''] = Inr True"
  "path_is_file (svg_world conv) [''repo'', ''assets'', ''icon.SVG''] = Inr True"
  "which (svg_world conv) x = conv"
  "io_error (svg_world conv) q c = None"
  "ROOT_DIR (svg_world conv) = [''repo'']"
  by (simp_all add: svg_world_def example_world_def resolve_source_def)

lemma load_svg_world:
  "load_svg_image (svg_world (Some ''/usr/bin/convert'')) p = Inr (square_image 1024)"
  by (simp add: svg_world_def example_world_def load_svg_image_def)

lemma load_png_world:
  "load_source_image (png_world n n) [''repo'', ''assets'', ''icon.png'']
     = Inr \<lparr>width = n, height = n, pixels = []\<rparr>"
  by (simp add: load_source_image_def png_world_simps suffix_icon_png lower_png)

lemma load_svg_world_source:
  "load_source_image (svg_world (Some ''/usr/bin/convert'')) [''repo'', ''assets'', ''icon.SVG'']
     = Inr (square_image 1024)"
  by (simp add: load_source_image_def svg_world_simps suffix_icon_SVG lower_SVG load_svg_world
      square_image_def)

lemma ico_sorted_sizes:
  "sorted_list_of_set (set (map (\<lambda>s. (s, s)) ICO_ENTRY_SIZES)) =
     [(16, 16), (24, 24), (32, 32), (48, 48), (64, 64), (128, 128), (256, 256 :: nat)]"
  by code_simp

lemma ico_embedded_filter:
  "ico_embedded img (map (\<lambda>s. (s, s)) ICO_ENTRY_SIZES) =
     map (\<lambda>s. (s, s)) (filter (\<lambda>s. s \<le> width img \<and> s \<le> height img) ICO_ENTRY_SIZES)"
  unfolding ico_embedded_def ico_sorted_sizes
  by (simp add: ICO_ENTRY_SIZES_def not_less)

lemma ico_embedded_large:
  assumes "256 \<le> width img" and "256 \<le> height img"
  shows "ico_embedded img (map (\<lambda>s. (s, s)) ICO_ENTRY_SIZES) =
     [(16, 16), (24, 24), (32, 32), (48, 48), (64, 64), (128, 128), (256, 256)]"
  unfolding ico_embedded_def ico_sorted_sizes using assms by simp

lemma ico_embedded_64:
  "ico_embedded \<lparr>width = 64, height = 64, pixels = []\<rparr> (map (\<lambda>s. (s, s)) ICO_ENTRY_SIZES) =
     [(16, 16), (24, 24), (32, 32), (48, 48), (64, 64)]"
  unfolding ico_embedded_def ico_sorted_sizes by simp


lemma ico_embedded_nonempty:
  assumes "16 \<le> width img" and "16 \<le> height img"
  shows "ico_embedded img (map (\<lambda>s. (s, s)) ICO_ENTRY_SIZES) \<noteq> []"
  unfolding ico_embedded_def ico_sorted_sizes using assms by simp

lemma writes_ok_target_entries:
  assumes "\<forall>p c. io_error w p c = None" and "16 \<le> width img" and "16 \<le> height img"
  shows "writes_ok w (target_entries w img sp b c)"
  using assms ico_embedded_nonempty [OF assms(2,3)]
  by (auto simp: writes_ok_def write_ok_def encoder_error_def target_entries_def
      png_entries_def ico_entries_def svg_entries_def)

lemma writes_ok_expected_log:
  assumes "\<forall>p c. io_error w p c = None" and "16 \<le> width img" and "16 \<le> height img"
  shows "writes_ok w (expected_log w img sp b ts)"
proof (induction ts)
  case Nil
  show ?case by simp
next
  case (Cons t ts)
  then show ?case
    using writes_ok_target_entries [OF assms]
    by (cases "map_of MANAGED_TARGETS t") simp_all
qed

lemma writes_ok_png_world:
  assumes "16 \<le> a" and "16 \<le> b"
  shows "writes_ok (png_world a b)
           (expected_log (png_world a b) \<lparr>width = a, height = b, pixels = []\<rparr> sp is_svg ts)"
  using assms by (intro writes_ok_expected_log) (simp_all add: png_world_simps)

lemma writes_ok_svg_world:
  "writes_ok (svg_world conv) (expected_log (svg_world conv) (square_image 1024) sp is_svg ts)"
  by (intro writes_ok_expected_log) (simp_all add: svg_world_simps square_image_def)

subsection \<open>The log of a run of the writer\<close>


lemma expected_log_contains:
  assumes "set ts \<subseteq> known" and "t \<in> set ts" and "map_of MANAGED_TARGETS t = Some c"
  shows "set (target_entries w img sp b c) \<subseteq> set (expected_log w img sp b ts)"
  using assms
proof (induction ts)
  case Nil
  then show ?case by simp
next
  case (Cons u us)
  from Cons.prems(1) obtain cu where cu: "map_of MANAGED_TARGETS u = Some cu"
    using known_lookup [of u] by auto
  show ?case
  proof (cases "t = u")
    case True
    then show ?thesis using cu Cons.prems(3) by auto
  next
    case False
    then have "set (target_entries w img sp b c) \<subseteq> set (expected_log w img sp b us)"
      using Cons by auto
    then show ?thesis using cu by auto
  qed
qed


lemma main_exit0:
  assumes "outcome (main w s v) = Exit 0"
  shows "\<exists>ts img written fs. parse_targets v = Inr ts
           \<and> load_source_image w (resolve_source w s) = Inr img
           \<and> sync_targets w img (resolve_source w s) ts [] = (Inr written, fs)"
proof (cases "parse_targets v")
  case (Inl e)
  then obtain m where "e = ArgumentTypeError m" using parse_targets_error by blast
  then show ?thesis using assms main_parse_fail [of v m w s] Inl
    by (simp add: parser_error_def)
next
  case (Inr ts)
  note p = this
  show ?thesis
  proof (cases "load_source_image w (resolve_source w s)")
    case (Inl e)
    show ?thesis
    proof (cases "\<exists>m. e = ValueError m")
      case True
      then show ?thesis using assms main_load_fail [OF p, of w s] Inl by auto
    next
      case False
      then show ?thesis using assms main_load_uncaught [OF p Inl] by simp
    qed
  next
    case (Inr img)
    note l = this
    obtain r fs where st: "sync_targets w img (resolve_source w s) ts [] = (r, fs)"
      by (cases "sync_targets w img (resolve_source w s) ts []")
    show ?thesis
    proof (cases r)
      case (Inl e)
      show ?thesis
      proof (cases "\<exists>m. e = ValueError m")
        case True
        then show ?thesis using assms main_sync_handled [OF p l, of _ fs] st Inl by auto
      next
        case False
        then show ?thesis using assms main_sync_fail [OF p l st [unfolded Inl]] by simp
      qed
    next
      case (Inr written)
      then show ?thesis using p l st by blast
    qed
  qed
qed

section \<open>The claims\<close>

subsection \<open>Claims about the command line\<close>



text \<open>
  Claim C4.  \<open>parse_targets\<close> raises \<open>ArgumentTypeError\<close> (which the argument parser
  reports as a usage error) when no token is left after splitting at commas, trimming
  and dropping the empty segments, and when some token is not a key of the registry.
  In the second case the message lists the unknown tokens and ends with the full
  supported set, \<open>desktop,web\<close>; the registry's keys are exactly \<open>web\<close> and
  \<open>desktop\<close>.  It raises in no other case.
\<close>

theorem parse_targets_rejects:
  "(raw_targets v = [] \<longrightarrow>
      parse_targets v = Inl (ArgumentTypeError ''--targets must include at least one target''))
   \<and> (\<not> set (raw_targets v) \<subseteq> known \<longrightarrow>
      parse_targets v = Inl (ArgumentTypeError
        (''unknown target(s): ''
           @ join '','' (sorted_list_of_set (set (raw_targets v) - known))
           @ ''. Supported targets: desktop,web'')))
   \<and> known = {''web'', ''desktop''}
   \<and> (\<forall>ts. parse_targets v = Inr ts \<longrightarrow>
         raw_targets v \<noteq> [] \<and> set (raw_targets v) \<subseteq> known)"
proof -
  have "raw_targets v = [] \<longrightarrow>
      parse_targets v = Inl (ArgumentTypeError ''--targets must include at least one target'')"
    by (simp add: parse_targets_def)
  moreover have "\<not> set (raw_targets v) \<subseteq> known \<longrightarrow>
      parse_targets v = Inl (ArgumentTypeError
        (''unknown target(s): ''
           @ join '','' (sorted_list_of_set (set (raw_targets v) - known))
           @ ''. Supported targets: desktop,web''))"
    using parse_targets_unknown by blast
  moreover have "\<forall>ts. parse_targets v = Inr ts \<longrightarrow>
         raw_targets v \<noteq> [] \<and> set (raw_targets v) \<subseteq> known"
    by (simp add: parse_targets_Inr)
  ultimately show ?thesis using known_eq by blast
qed

lemma raw_blank: "raw_targets '' , '' = []"
  by code_simp

lemma raw_bogus: "raw_targets ''web,bogus'' = [''web'', ''bogus'']"
  by code_simp

lemma unknown_bogus:
  "join '','' (sorted_list_of_set (set [''web'', ''bogus''] - known)) = ''bogus''"
  by code_simp

theorem parse_targets_rejects_witness:
  "parse_targets '' , '' =
      Inl (ArgumentTypeError ''--targets must include at least one target'')
   \<and> parse_targets ''web,bogus'' =
      Inl (ArgumentTypeError ''unknown target(s): bogus. Supported targets: desktop,web'')
   \<and> raw_targets ''web,desktop,web'' \<noteq> []"
proof (intro conjI)
  show "parse_targets '' , '' =
      Inl (ArgumentTypeError ''--targets must include at least one target'')"
    by (rule parse_targets_rejects [of "'' , ''", THEN conjunct1, rule_format, OF raw_blank])
next
  have u: "\<not> set (raw_targets ''web,bogus'') \<subseteq> known"
    by (simp add: raw_bogus known_eq)
  show "parse_targets ''web,bogus'' =
      Inl (ArgumentTypeError ''unknown target(s): bogus. Supported targets: desktop,web'')"
    using parse_targets_rejects [of "''web,bogus''", THEN conjunct2, THEN conjunct1,
        rule_format, OF u]
    by (simp only: raw_bogus unknown_bogus append.simps)
next
  show "raw_targets ''web,desktop,web'' \<noteq> []"
    by (rule parse_targets_rejects [of "''web,desktop,web''", THEN conjunct2, THEN conjunct2,
          THEN conjunct2, rule_format, OF parse_dup, THEN conjunct1])
qed

text \<open>
  Claim C10.  For every target list that \<open>parse_targets\<close> returns, each name is a key
  of the registry, so the lookup \<open>MANAGED_TARGETS[target]\<close> in the writer never raises
  \<open>KeyError\<close>, from any log and in any world, and \<open>main\<close> never ends with an uncaught
  \<open>KeyError\<close>.
\<close>

theorem parsed_targets_lookup_succeeds:
  assumes "parse_targets v = Inr ts"
  shows "(\<forall>t \<in> set ts. \<exists>c. map_of MANAGED_TARGETS t = Some c)
     \<and> (\<forall>w img sp fs k fs'. sync_targets w img sp ts fs \<noteq> (Inl (KeyError k), fs'))
     \<and> (\<forall>w s k. outcome (main w s v) \<noteq> Uncaught (KeyError k))"
proof -
  from assms have "set ts \<subseteq> known"
    by (simp add: parse_targets_Inr set_first_occurrences)
  then have look: "\<forall>t \<in> set ts. \<exists>c. map_of MANAGED_TARGETS t = Some c"
    using known_lookup by auto
  have nokey: "sync_targets w img sp ts fs \<noteq> (Inl (KeyError k), fs')" for w img sp fs k fs'
  proof
    assume "sync_targets w img sp ts fs = (Inl (KeyError k), fs')"
    from sync_targets_error [OF this] look show False by auto
  qed
  have "outcome (main w s v) \<noteq> Uncaught (KeyError k)" for w s k
  proof (cases "load_source_image w (resolve_source w s)")
    case (Inl e)
    from load_source_error [OF Inl] have ne: "e \<noteq> KeyError k" by auto
    show ?thesis
    proof (cases "\<exists>m. e = ValueError m")
      case True
      then show ?thesis using main_load_fail [OF assms, of w s] Inl by auto
    next
      case False
      then show ?thesis using main_load_uncaught [OF assms Inl] ne by simp
    qed
  next
    case (Inr img)
    note l = this
    obtain r fs where st: "sync_targets w img (resolve_source w s) ts [] = (r, fs)"
      by (cases "sync_targets w img (resolve_source w s) ts []")
    show ?thesis
    proof (cases r)
      case (Inl e)
      then have ne: "e \<noteq> KeyError k" using nokey st by auto
      show ?thesis
      proof (cases "\<exists>m. e = ValueError m")
        case True
        then show ?thesis using main_sync_handled [OF assms l, of _ fs] st Inl by auto
      next
        case False
        then show ?thesis using main_sync_fail [OF assms l st [unfolded Inl]] ne by simp
      qed
    next
      case (Inr written)
      then show ?thesis using main_sync_ok [OF assms l st [unfolded Inr]] by simp
    qed
  qed
  with look nokey show ?thesis by blast
qed

theorem parsed_targets_lookup_succeeds_witness:
  "parse_targets ''web,desktop,web'' = Inr [''web'', ''desktop'']
     \<and> (\<exists>c. map_of MANAGED_TARGETS ''web'' = Some c)
     \<and> (\<exists>c. map_of MANAGED_TARGETS ''desktop'' = Some c)"
  using parse_dup parsed_targets_lookup_succeeds [OF parse_dup] by simp

subsection \<open>Claims about the writer\<close>

text \<open>
  Claim C5.  The writer returns the complete list of written paths in this order: the
  selected targets in selection order, and within a target the PNG paths in declared
  order, then the ICO paths, then (for an SVG source) the SVG paths in declared order;
  this order is \<open>expected_written\<close>.  Whenever \<open>sync_targets\<close> returns, what it returns
  is that list, and the log has grown by exactly these paths in this order; it does
  return when every target is a key of the registry and every one of the writes
  succeeds.  When \<open>main\<close> exits with 0, the files it wrote are that list and its
  standard output is the line \<open>synced N icon files\<close> with \<open>N\<close> the number of files
  written.
\<close>

theorem sync_targets_written_order:
  "(\<forall>written fs'. sync_targets w img sp ts fs = (Inr written, fs') \<longrightarrow>
       written = expected_written w (source_is_svg sp) ts
       \<and> map fst fs' = map fst fs @ written)
   \<and> (set ts \<subseteq> known \<and> writes_ok w (expected_log w img sp (source_is_svg sp) ts) \<longrightarrow>
       fst (sync_targets w img sp ts fs) = Inr (expected_written w (source_is_svg sp) ts))
   \<and> (outcome (main w s v) = Exit 0 \<longrightarrow>
       (\<exists>ts'. parse_targets v = Inr ts'
          \<and> map fst (files (main w s v))
                = expected_written w (source_is_svg (resolve_source w s)) ts'
          \<and> stdout (main w s v)
                = ''synced '' @ str_nat (length (files (main w s v))) @ '' icon files''
                    @ [CHR 0x0A]))"
proof (intro conjI allI impI)
  fix written fs'
  assume h: "sync_targets w img sp ts fs = (Inr written, fs')"
  from sync_targets_shape [OF h] obtain new where
    n: "fs' = fs @ new" "new = expected_log w img sp (source_is_svg sp) ts"
       "written = map fst new"
    by auto
  show "written = expected_written w (source_is_svg sp) ts"
    using n by (simp add: expected_log_paths)
  show "map fst fs' = map fst fs @ written"
    using n by simp
next
  assume "set ts \<subseteq> known \<and> writes_ok w (expected_log w img sp (source_is_svg sp) ts)"
  then show "fst (sync_targets w img sp ts fs) = Inr (expected_written w (source_is_svg sp) ts)"
    using sync_targets_ok [of w img sp ts fs] by (simp add: expected_log_paths)
next
  assume "outcome (main w s v) = Exit 0"
  from main_exit0 [OF this] obtain ts' img' written fs' where
    p: "parse_targets v = Inr ts'"
    and l: "load_source_image w (resolve_source w s) = Inr img'"
    and st: "sync_targets w img' (resolve_source w s) ts' [] = (Inr written, fs')"
    by blast
  from sync_targets_shape [OF st] have
    fs': "fs' = expected_log w img' (resolve_source w s) (source_is_svg (resolve_source w s)) ts'"
    and wr: "written = map fst fs'"
    by auto
  have m: "main w s v =
     \<lparr>outcome = Exit 0,
      stdout = ''synced '' @ str_nat (length written) @ '' icon files'' @ [CHR 0x0A],
      stderr = [], files = fs'\<rparr>"
    by (rule main_sync_ok [OF p l st])
  have "map fst (files (main w s v))
      = expected_written w (source_is_svg (resolve_source w s)) ts'"
    unfolding m using fs' by (simp add: expected_log_paths)
  moreover have "stdout (main w s v)
      = ''synced '' @ str_nat (length (files (main w s v))) @ '' icon files'' @ [CHR 0x0A]"
    unfolding m using wr by simp
  ultimately show "\<exists>ts'. parse_targets v = Inr ts'
          \<and> map fst (files (main w s v))
                = expected_written w (source_is_svg (resolve_source w s)) ts'
          \<and> stdout (main w s v)
                = ''synced '' @ str_nat (length (files (main w s v))) @ '' icon files''
                    @ [CHR 0x0A]"
    using p by blast
qed

lemma not_svg_icon_png: "\<not> source_is_svg [''repo'', ''assets'', ''icon.png'']"
  by (simp add: source_is_svg_def suffix_icon_png lower_png)

lemma svg_icon_SVG: "source_is_svg [''repo'', ''assets'', ''icon.SVG'']"
  by (simp add: source_is_svg_def suffix_icon_SVG lower_SVG)

lemma expected_written_web_desktop:
  "expected_written (svg_world conv) True [''web'', ''desktop''] =
     [[''repo'', ''web'', ''public'', ''favicon-16x16.png''],
      [''repo'', ''web'', ''public'', ''favicon-32x32.png''],
      [''repo'', ''web'', ''public'', ''videnoa_icon.png''],
      [''repo'', ''web'', ''public'', ''favicon.ico''],
      [''repo'', ''web'', ''public'', ''favicon.svg''],
      [''repo'', ''crates'', ''desktop'', ''icons'', ''icon.png''],
      [''repo'', ''crates'', ''desktop'', ''icons'', ''icon-32.png''],
      [''repo'', ''crates'', ''desktop'', ''icons'', ''icon-64.png''],
      [''repo'', ''crates'', ''desktop'', ''icons'', ''icon-128.png''],
      [''repo'', ''crates'', ''desktop'', ''icons'', ''icon-256.png''],
      [''repo'', ''crates'', ''desktop'', ''icons'', ''icon.ico'']]"
  by (simp add: lookup_web lookup_desktop target_paths_def svg_world_simps)

lemma parse_web_desktop: "parse_targets ''web,desktop'' = Inr [''web'', ''desktop'']"
  by code_simp

lemma main_svg_world_exit0:
  "outcome (main (svg_world (Some ''/usr/bin/convert'')) s ''web,desktop'') = Exit 0"
proof -
  let ?w = "svg_world (Some ''/usr/bin/convert'')"
  let ?sp = "[''repo'', ''assets'', ''icon.SVG'']"
  have st: "sync_targets ?w (square_image 1024) (resolve_source ?w s) [''web'', ''desktop''] []
      = (Inr (map fst (expected_log ?w (square_image 1024) ?sp (source_is_svg ?sp)
                [''web'', ''desktop''])),
         [] @ expected_log ?w (square_image 1024) ?sp (source_is_svg ?sp)
                [''web'', ''desktop''])"
    unfolding svg_world_simps
    by (rule sync_targets_ok [OF writes_ok_svg_world]) (simp_all add: known_eq)
  have l: "load_source_image ?w (resolve_source ?w s) = Inr (square_image 1024)"
    by (simp add: svg_world_simps load_svg_world_source)
  show ?thesis
    by (simp add: main_sync_ok [OF parse_web_desktop l st])
qed

theorem sync_targets_written_order_witness:
  "fst (sync_targets (svg_world (Some ''/usr/bin/convert'')) (square_image 1024)
          [''repo'', ''assets'', ''icon.SVG''] [''web'', ''desktop''] []) =
     Inr [[''repo'', ''web'', ''public'', ''favicon-16x16.png''],
          [''repo'', ''web'', ''public'', ''favicon-32x32.png''],
          [''repo'', ''web'', ''public'', ''videnoa_icon.png''],
          [''repo'', ''web'', ''public'', ''favicon.ico''],
          [''repo'', ''web'', ''public'', ''favicon.svg''],
          [''repo'', ''crates'', ''desktop'', ''icons'', ''icon.png''],
          [''repo'', ''crates'', ''desktop'', ''icons'', ''icon-32.png''],
          [''repo'', ''crates'', ''desktop'', ''icons'', ''icon-64.png''],
          [''repo'', ''crates'', ''desktop'', ''icons'', ''icon-128.png''],
          [''repo'', ''crates'', ''desktop'', ''icons'', ''icon-256.png''],
          [''repo'', ''crates'', ''desktop'', ''icons'', ''icon.ico'']]
   \<and> stdout (main (svg_world (Some ''/usr/bin/convert'')) ''assets/icon.SVG'' ''web,desktop'')
       = ''synced 11 icon files'' @ [CHR 0x0A]"
proof (rule conjI)
  let ?w = "svg_world (Some ''/usr/bin/convert'')"
  let ?sp = "[''repo'', ''assets'', ''icon.SVG'']"
  have h: "set [''web'', ''desktop''] \<subseteq> known
      \<and> writes_ok ?w (expected_log ?w (square_image 1024) ?sp (source_is_svg ?sp)
            [''web'', ''desktop''])"
    by (intro conjI writes_ok_svg_world) (simp add: known_eq)
  from sync_targets_written_order [of ?w "square_image 1024" ?sp "[''web'', ''desktop'']" "[]",
      THEN conjunct2, THEN conjunct1, rule_format, OF h]
  show "fst (sync_targets ?w (square_image 1024) ?sp [''web'', ''desktop''] []) =
     Inr [[''repo'', ''web'', ''public'', ''favicon-16x16.png''],
          [''repo'', ''web'', ''public'', ''favicon-32x32.png''],
          [''repo'', ''web'', ''public'', ''videnoa_icon.png''],
          [''repo'', ''web'', ''public'', ''favicon.ico''],
          [''repo'', ''web'', ''public'', ''favicon.svg''],
          [''repo'', ''crates'', ''desktop'', ''icons'', ''icon.png''],
          [''repo'', ''crates'', ''desktop'', ''icons'', ''icon-32.png''],
          [''repo'', ''crates'', ''desktop'', ''icons'', ''icon-64.png''],
          [''repo'', ''crates'', ''desktop'', ''icons'', ''icon-128.png''],
          [''repo'', ''crates'', ''desktop'', ''icons'', ''icon-256.png''],
          [''repo'', ''crates'', ''desktop'', ''icons'', ''icon.ico'']]"
    by (simp only: svg_icon_SVG expected_written_web_desktop)
next
  let ?w = "svg_world (Some ''/usr/bin/convert'')"
  let ?m = "main ?w ''assets/icon.SVG'' ''web,desktop''"
  from sync_targets_written_order [of ?w _ _ _ _ "''assets/icon.SVG''" "''web,desktop''",
      THEN conjunct2, THEN conjunct2, rule_format, OF main_svg_world_exit0]
  obtain ts' where p: "parse_targets ''web,desktop'' = Inr ts'"
    and f: "map fst (files ?m) = expected_written ?w (source_is_svg (resolve_source ?w ''assets/icon.SVG'')) ts'"
    and o: "stdout ?m = ''synced '' @ str_nat (length (files ?m)) @ '' icon files'' @ [CHR 0x0A]"
    by blast
  from p have ts': "ts' = [''web'', ''desktop'']" by (simp add: parse_web_desktop)
  have "length (map fst (files ?m)) = 11"
    unfolding f ts' svg_world_simps
    by (simp only: svg_icon_SVG expected_written_web_desktop) simp
  then have "length (files ?m) = 11" by simp
  then show "stdout ?m = ''synced 11 icon files'' @ [CHR 0x0A]"
    using o by (simp add: str_nat.simps)
qed


subsection \<open>Claims about the whole run\<close>




lemma sync_web_png_world:
  "sync_targets (png_world 512 512) \<lparr>width = 512, height = 512, pixels = []\<rparr>
     (resolve_source (png_world 512 512) s) [''web''] [] =
   (Inr (map fst (expected_log (png_world 512 512) \<lparr>width = 512, height = 512, pixels = []\<rparr>
            (resolve_source (png_world 512 512) s)
            (source_is_svg (resolve_source (png_world 512 512) s)) [''web''])),
    [] @ expected_log (png_world 512 512) \<lparr>width = 512, height = 512, pixels = []\<rparr>
            (resolve_source (png_world 512 512) s)
            (source_is_svg (resolve_source (png_world 512 512) s)) [''web''])"
  by (rule sync_targets_ok [OF writes_ok_png_world]) (simp_all add: known_eq)



lemma main_load_fail_no_files:
  assumes "load_source_image w (resolve_source w s) = Inl e"
  shows "files (main w s v) = [] \<and> outcome (main w s v) \<noteq> Exit 0"
proof (cases "parse_targets v")
  case (Inl a)
  then obtain m where "parse_targets v = Inl (ArgumentTypeError m)"
    using parse_targets_error by blast
  from main_parse_fail [OF this, of w s] show ?thesis by (simp add: parser_error_def)
next
  case (Inr ts)
  show ?thesis
  proof (cases "\<exists>m. e = ValueError m")
    case True
    then show ?thesis using main_load_fail [OF Inr, of w s] assms by auto
  next
    case False
    then show ?thesis using main_load_uncaught [OF Inr assms] by simp
  qed
qed

text \<open>
  Claim C2.  When the source file exists, is a regular file, is decoded (as PNG or
  through the rasteriser, by its suffix) and the decoded width differs from the height,
  no run writes a file or exits with 0; and with a \<open>--targets\<close> value that
  \<open>parse_targets\<close> accepts (the loader runs only then) the run writes nothing, exits
  with status 1, and its standard error is one line \<open>error: source image must be square,
  got WxH: path\<close>, which contains \<open>must be square\<close>.
\<close>

theorem non_square_source_rejected:
  assumes "path_exists w (resolve_source w s) = Inr True"
    and "path_is_file w (resolve_source w s) = Inr True"
    and "(lower (path_suffix (resolve_source w s)) = ''.png''
            \<and> load_png_image w (resolve_source w s) = Inr rgba)
         \<or> (lower (path_suffix (resolve_source w s)) = ''.svg''
            \<and> load_svg_image w (resolve_source w s) = Inr rgba)"
    and "width rgba \<noteq> height rgba"
  shows "files (main w s v) = [] \<and> outcome (main w s v) \<noteq> Exit 0
     \<and> (\<forall>ts. parse_targets v = Inr ts \<longrightarrow>
           main w s v =
             \<lparr>outcome = Exit 1, stdout = [],
              stderr = ''error: source image must be square, got '' @ str_nat (width rgba)
                         @ ''x'' @ str_nat (height rgba) @ '': ''
                         @ path_str (resolve_source w s) @ [CHR 0x0A],
              files = []\<rparr>
           \<and> sublist ''must be square'' (stderr (main w s v))
           \<and> exit_status (outcome (main w s v)) = 1)"
proof -
  let ?sp = "resolve_source w s"
  let ?m = "''source image must be square, got '' @ str_nat (width rgba)
              @ ''x'' @ str_nat (height rgba) @ '': '' @ path_str ?sp"
  have l: "load_source_image w ?sp = Inl (ValueError ?m)"
    using assms by (auto simp: load_source_image_def Let_def)
  have r: "main w s v =
       \<lparr>outcome = Exit 1, stdout = [], stderr = ''error: '' @ ?m @ [CHR 0x0A], files = []\<rparr>"
    if "parse_targets v = Inr ts" for ts
    by (rule main_load_fail [OF that l])
  have sub: "sublist ''must be square'' (''error: '' @ ?m @ [CHR 0x0A])"
    unfolding sublist_def
    by (rule exI [of _ "''error: source image ''"],
        rule exI [of _ "'', got '' @ str_nat (width rgba) @ ''x'' @ str_nat (height rgba)
            @ '': '' @ path_str ?sp @ [CHR 0x0A]"]) simp
  show ?thesis
    using main_load_fail_no_files [OF l, of v] r sub by auto
qed

theorem non_square_source_rejected_witness:
  "main (png_world 640 480) ''assets/icon.png'' ''web,desktop'' =
     \<lparr>outcome = Exit 1, stdout = [],
      stderr = ''error: source image must be square, got 640x480: /repo/assets/icon.png''
                 @ [CHR 0x0A],
      files = []\<rparr>"
proof -
  let ?w = "png_world 640 480"
  let ?rgba = "\<lparr>width = 640, height = 480, pixels = []\<rparr>"
  have a: "path_exists ?w (resolve_source ?w ''assets/icon.png'') = Inr True"
    and b: "path_is_file ?w (resolve_source ?w ''assets/icon.png'') = Inr True"
    by (simp_all add: png_world_simps)
  have c: "(lower (path_suffix (resolve_source ?w ''assets/icon.png'')) = ''.png''
            \<and> load_png_image ?w (resolve_source ?w ''assets/icon.png'') = Inr ?rgba)
         \<or> (lower (path_suffix (resolve_source ?w ''assets/icon.png'')) = ''.svg''
            \<and> load_svg_image ?w (resolve_source ?w ''assets/icon.png'') = Inr ?rgba)"
    by (simp add: png_world_simps suffix_icon_png lower_png)
  have d: "width ?rgba \<noteq> height ?rgba" by simp
  from non_square_source_rejected [OF a b c d, of "''web,desktop''",
      THEN conjunct2, THEN conjunct2, rule_format, OF parse_web_desktop, THEN conjunct1]
  show ?thesis
    by (simp add: png_world_simps str_nat.simps path_str_def)
qed

text \<open>
  Claim C8.  When the source file exists, is a regular file with suffix \<open>.svg\<close> (in any
  case of letters) and \<open>shutil.which\<close> finds no \<open>convert\<close>, no run writes a file or
  exits with 0; and with a \<open>--targets\<close> value that \<open>parse_targets\<close> accepts the run
  exits with status 1 after printing \<open>error: source is SVG but ImageMagick 'convert' is
  not installed\<close>, with no file written.
\<close>

theorem missing_rasterizer_rejected:
  assumes "path_exists w (resolve_source w s) = Inr True"
    and "path_is_file w (resolve_source w s) = Inr True"
    and "source_is_svg (resolve_source w s)"
    and "which w ''convert'' = None"
  shows "files (main w s v) = [] \<and> outcome (main w s v) \<noteq> Exit 0
     \<and> (\<forall>ts. parse_targets v = Inr ts \<longrightarrow>
           main w s v =
             \<lparr>outcome = Exit 1, stdout = [],
              stderr = ''error: source is SVG but ImageMagick 'convert' is not installed''
                         @ [CHR 0x0A],
              files = []\<rparr>)"
proof -
  let ?sp = "resolve_source w s"
  have l: "load_source_image w ?sp =
      Inl (ValueError ''source is SVG but ImageMagick 'convert' is not installed'')"
    using assms by (simp add: load_source_image_def load_svg_image_def source_is_svg_def)
  show ?thesis
    using main_load_fail_no_files [OF l, of v] main_load_fail [OF _ l, of v] by auto
qed

theorem missing_rasterizer_rejected_witness:
  "main (svg_world None) ''assets/icon.SVG'' ''web'' =
     \<lparr>outcome = Exit 1, stdout = [],
      stderr = ''error: source is SVG but ImageMagick 'convert' is not installed''
                 @ [CHR 0x0A],
      files = []\<rparr>"
proof -
  let ?w = "svg_world None"
  have a: "path_exists ?w (resolve_source ?w ''assets/icon.SVG'') = Inr True"
    and b: "path_is_file ?w (resolve_source ?w ''assets/icon.SVG'') = Inr True"
    and c: "source_is_svg (resolve_source ?w ''assets/icon.SVG'')"
    and d: "which ?w ''convert'' = None"
    by (simp_all add: svg_world_simps svg_icon_SVG)
  show ?thesis
    by (rule missing_rasterizer_rejected [OF a b c d, of "''web''",
          THEN conjunct2, THEN conjunct2, rule_format, OF parse_web])
qed

lemma target_entries_copy:
  "(p, CopyOf q) \<in> set (target_entries w img sp b c) \<Longrightarrow> b \<and> q = sp"
  by (auto simp: target_entries_def png_entries_def ico_entries_def svg_entries_def
      split: if_splits)

lemma expected_log_copy:
  "(p, CopyOf q) \<in> set (expected_log w img sp b ts) \<Longrightarrow> b \<and> q = sp"
proof (induction ts)
  case Nil
  then show ?case by simp
next
  case (Cons t ts)
  then show ?case
    by (cases "map_of MANAGED_TARGETS t") (auto dest: target_entries_copy)
qed

lemma sync_loop_None_known:
  "fst (sync_loop w img sp is_svg ts st) = None \<Longrightarrow> set ts \<subseteq> known"
proof (induction ts arbitrary: st)
  case Nil
  show ?case by simp
next
  case (Cons t ts)
  show ?case
  proof (cases "map_of MANAGED_TARGETS t")
    case None
    then show ?thesis using Cons.prems by simp
  next
    case (Some c)
    then have t: "t \<in> known" by (simp add: known_lookup)
    obtain r1 st1 where r1: "sync_png w img (png c) st = (r1, st1)"
      by (cases "sync_png w img (png c) st")
    obtain r2 st2 where r2: "sync_ico w img (ico c) st1 = (r2, st2)"
      by (cases "sync_ico w img (ico c) st1")
    obtain r3 st3 where r3: "sync_svg w sp (svg c) st2 = (r3, st3)"
      by (cases "sync_svg w sp (svg c) st2")
    have step: "sync_loop w img sp is_svg (t # ts) st =
        (case r1 of Some e1 \<Rightarrow> (Some e1, st1)
         | None \<Rightarrow> (case r2 of Some e2 \<Rightarrow> (Some e2, st2)
            | None \<Rightarrow> (if is_svg
                 then (case r3 of Some e3 \<Rightarrow> (Some e3, st3)
                       | None \<Rightarrow> sync_loop w img sp is_svg ts st3)
                 else sync_loop w img sp is_svg ts st2)))"
      by (simp add: Some r1 r2 r3 split: option.splits)
    define rec where "rec s \<longleftrightarrow> fst (sync_loop w img sp is_svg ts s) = None" for s
    from Cons.prems [unfolded step] have "rec st3 \<or> rec st2"
      unfolding rec_def by (cases r1; cases r2; cases r3; cases is_svg) simp_all
    moreover have "rec s \<Longrightarrow> set ts \<subseteq> known" for s
      unfolding rec_def by (rule Cons.IH)
    ultimately have "set ts \<subseteq> known" by blast
    then show ?thesis using t by simp
  qed
qed

lemma sync_targets_Inr_known:
  assumes "sync_targets w img sp ts fs = (Inr written, fs')"
  shows "set ts \<subseteq> known"
proof -
  let ?loop = "sync_loop w img sp (source_is_svg sp) ts ([], fs)"
  obtain r0 wr0 fs0 where l: "?loop = (r0, (wr0, fs0))"
    by (metis prod.exhaust)
  from assms l have "r0 = None"
    by (auto simp: sync_targets_def source_is_svg_def split: option.splits)
  with l sync_loop_None_known [of w img sp "source_is_svg sp" ts "([], fs)"] show ?thesis
    by simp
qed

lemma sync_targets_Inr_log:
  assumes "sync_targets w img sp ts [] = (Inr written, fs)"
  shows "fs = expected_log w img sp (source_is_svg sp) ts"
  using sync_targets_shape [OF assms] by auto

lemma sync_targets_log_subset:
  assumes "sync_targets w img sp ts [] = (r, fs)"
  shows "set fs \<subseteq> set (expected_log w img sp (source_is_svg sp) ts)"
proof -
  from sync_targets_shape [OF assms] obtain new where
    "fs = new" "prefix new (expected_log w img sp (source_is_svg sp) ts)"
    by auto
  then show ?thesis by (auto simp: prefix_def)
qed

subsection \<open>Claims about the files written\<close>

text \<open>
  Claim C6.  The script asks for all seven sizes 16, 24, 32, 48, 64, 128 and 256 in
  every ICO file, but it hands the source to the encoder as it is, and the encoder
  leaves out every size that exceeds the image.  The theorem is the run on a 64 by 64
  PNG with target \<open>desktop\<close>: the run succeeds, writing the PNG files of 128, 256 and
  512 pixels among others, and the ICO file written embeds the five sizes 16, 24, 32,
  48 and 64 only, not the seven.
\<close>

theorem ico_small_source_embeds_fewer_sizes:
  "outcome (main (png_world 64 64) ''assets/icon.png'' ''desktop'') = Exit 0
   \<and> ([''repo'', ''crates'', ''desktop'', ''icons'', ''icon.ico''],
       IcoFile \<lparr>width = 64, height = 64, pixels = []\<rparr>
         [(16, 16), (24, 24), (32, 32), (48, 48), (64, 64)])
      \<in> set (files (main (png_world 64 64) ''assets/icon.png'' ''desktop''))
   \<and> ([''repo'', ''crates'', ''desktop'', ''icons'', ''icon-256.png''],
       PngFile \<lparr>width = 64, height = 64, pixels = []\<rparr> 256 1 9)
      \<in> set (files (main (png_world 64 64) ''assets/icon.png'' ''desktop''))
   \<and> [(16, 16), (24, 24), (32, 32), (48, 48), (64, 64)]
      \<noteq> map (\<lambda>s. (s, s)) ICO_ENTRY_SIZES"
proof -
  let ?w = "png_world 64 64"
  let ?img = "\<lparr>width = 64, height = 64, pixels = []\<rparr>"
  let ?sp = "resolve_source ?w ''assets/icon.png''"
  have p: "parse_targets ''desktop'' = Inr [''desktop'']" by code_simp
  have l: "load_source_image ?w ?sp = Inr ?img"
    by (simp add: png_world_simps load_png_world)
  have st: "sync_targets ?w ?img ?sp [''desktop''] [] =
      (Inr (map fst (expected_log ?w ?img ?sp (source_is_svg ?sp) [''desktop''])),
       [] @ expected_log ?w ?img ?sp (source_is_svg ?sp) [''desktop''])"
    by (rule sync_targets_ok [OF writes_ok_png_world]) (simp_all add: known_eq)
  note m = main_sync_ok [OF p l st]
  have f: "RESAMPLE_FILTER ?w = 1"
    by (simp add: RESAMPLE_FILTER_def resample_filter_def png_world_def example_world_def)
  have "([''repo'', ''crates'', ''desktop'', ''icons'', ''icon.ico''],
       IcoFile ?img [(16, 16), (24, 24), (32, 32), (48, 48), (64, 64)])
      \<in> set (expected_log ?w ?img ?sp (source_is_svg ?sp) [''desktop''])"
    by (simp add: lookup_desktop target_entries_def png_entries_def ico_entries_def
        ico_embedded_64 png_world_simps)
  moreover have "([''repo'', ''crates'', ''desktop'', ''icons'', ''icon-256.png''],
       PngFile ?img 256 1 9)
      \<in> set (expected_log ?w ?img ?sp (source_is_svg ?sp) [''desktop''])"
    by (simp add: lookup_desktop target_entries_def png_entries_def ico_entries_def
        png_world_simps f PNG_COMPRESS_LEVEL_def)
  ultimately show ?thesis
    unfolding m by (simp add: ICO_ENTRY_SIZES_def)
qed

text \<open>
  Claim C7.  In every run of the writer, a byte copy of the source is written only
  when the source's suffix is \<open>.svg\<close>, and it is a copy of the source file itself; when
  the source is SVG and the writer returns, every SVG path configured for a selected
  target has been written as such a copy.  For a source that is not SVG and the single
  target \<open>web\<close>, a writer that returns has written exactly four files: the three PNG
  files of 16, 32 and 512 pixels and the one ICO file, and no SVG file.
\<close>

theorem svg_passthrough_iff_svg_source:
  assumes "sync_targets w img sp ts [] = (r, fs)"
  shows "(\<forall>p q. (p, CopyOf q) \<in> set fs \<longrightarrow> source_is_svg sp \<and> q = sp)
     \<and> (\<forall>written. r = Inr written \<and> source_is_svg sp \<longrightarrow>
           (\<forall>t \<in> set ts. \<forall>c. map_of MANAGED_TARGETS t = Some c \<longrightarrow>
              (\<forall>rel \<in> set (svg c). (ROOT_DIR w @ rel, CopyOf sp) \<in> set fs)))
     \<and> (\<forall>written. r = Inr written \<and> \<not> source_is_svg sp \<and> ts = [''web''] \<longrightarrow>
           fs = [(ROOT_DIR w @ [''web'', ''public'', ''favicon-16x16.png''],
                  PngFile img 16 (RESAMPLE_FILTER w) PNG_COMPRESS_LEVEL),
                 (ROOT_DIR w @ [''web'', ''public'', ''favicon-32x32.png''],
                  PngFile img 32 (RESAMPLE_FILTER w) PNG_COMPRESS_LEVEL),
                 (ROOT_DIR w @ [''web'', ''public'', ''videnoa_icon.png''],
                  PngFile img 512 (RESAMPLE_FILTER w) PNG_COMPRESS_LEVEL),
                 (ROOT_DIR w @ [''web'', ''public'', ''favicon.ico''],
                  IcoFile img (ico_embedded img (map (\<lambda>s. (s, s)) ICO_ENTRY_SIZES)))])"
proof (intro conjI allI impI ballI)
  fix p q
  assume "(p, CopyOf q) \<in> set fs"
  then have "(p, CopyOf q) \<in> set (expected_log w img sp (source_is_svg sp) ts)"
    using sync_targets_log_subset [OF assms] by auto
  from expected_log_copy [OF this] show "source_is_svg sp" and "q = sp" by simp_all
next
  fix written t c rel
  assume h: "r = Inr written \<and> source_is_svg sp" and t: "t \<in> set ts"
    and c: "map_of MANAGED_TARGETS t = Some c" and rel: "rel \<in> set (svg c)"
  have st: "sync_targets w img sp ts [] = (Inr written, fs)" using assms h by simp
  have fs: "fs = expected_log w img sp (source_is_svg sp) ts"
    by (rule sync_targets_Inr_log [OF st])
  have k: "set ts \<subseteq> known" by (rule sync_targets_Inr_known [OF st])
  have "(ROOT_DIR w @ rel, CopyOf sp) \<in> set (target_entries w img sp (source_is_svg sp) c)"
    using rel h by (auto simp: target_entries_def svg_entries_def)
  then show "(ROOT_DIR w @ rel, CopyOf sp) \<in> set fs"
    unfolding fs using expected_log_contains [OF k t c, of w img sp "source_is_svg sp"] by auto
next
  fix written
  assume h: "r = Inr written \<and> \<not> source_is_svg sp \<and> ts = [''web'']"
  have st: "sync_targets w img sp ts [] = (Inr written, fs)" using assms h by simp
  have fs: "fs = expected_log w img sp (source_is_svg sp) ts"
    by (rule sync_targets_Inr_log [OF st])
  show "fs = [(ROOT_DIR w @ [''web'', ''public'', ''favicon-16x16.png''],
                  PngFile img 16 (RESAMPLE_FILTER w) PNG_COMPRESS_LEVEL),
                 (ROOT_DIR w @ [''web'', ''public'', ''favicon-32x32.png''],
                  PngFile img 32 (RESAMPLE_FILTER w) PNG_COMPRESS_LEVEL),
                 (ROOT_DIR w @ [''web'', ''public'', ''videnoa_icon.png''],
                  PngFile img 512 (RESAMPLE_FILTER w) PNG_COMPRESS_LEVEL),
                 (ROOT_DIR w @ [''web'', ''public'', ''favicon.ico''],
                  IcoFile img (ico_embedded img (map (\<lambda>s. (s, s)) ICO_ENTRY_SIZES)))]"
    unfolding fs using h
    by (simp add: lookup_web target_entries_def png_entries_def ico_entries_def)
qed

lemma sync_web_desktop_svg_world:
  "sync_targets (svg_world (Some ''/usr/bin/convert'')) (square_image 1024)
     [''repo'', ''assets'', ''icon.SVG''] [''web'', ''desktop''] [] =
   (Inr (map fst (expected_log (svg_world (Some ''/usr/bin/convert'')) (square_image 1024)
            [''repo'', ''assets'', ''icon.SVG'']
            (source_is_svg [''repo'', ''assets'', ''icon.SVG'']) [''web'', ''desktop''])),
    [] @ expected_log (svg_world (Some ''/usr/bin/convert'')) (square_image 1024)
            [''repo'', ''assets'', ''icon.SVG'']
            (source_is_svg [''repo'', ''assets'', ''icon.SVG'']) [''web'', ''desktop''])"
  by (rule sync_targets_ok [OF writes_ok_svg_world]) (simp_all add: known_eq)

theorem svg_passthrough_iff_svg_source_witness:
  "snd (sync_targets (png_world 512 512) \<lparr>width = 512, height = 512, pixels = []\<rparr>
          [''repo'', ''assets'', ''icon.png''] [''web''] []) =
     [([''repo'', ''web'', ''public'', ''favicon-16x16.png''],
       PngFile \<lparr>width = 512, height = 512, pixels = []\<rparr> 16 1 9),
      ([''repo'', ''web'', ''public'', ''favicon-32x32.png''],
       PngFile \<lparr>width = 512, height = 512, pixels = []\<rparr> 32 1 9),
      ([''repo'', ''web'', ''public'', ''videnoa_icon.png''],
       PngFile \<lparr>width = 512, height = 512, pixels = []\<rparr> 512 1 9),
      ([''repo'', ''web'', ''public'', ''favicon.ico''],
       IcoFile \<lparr>width = 512, height = 512, pixels = []\<rparr>
         [(16, 16), (24, 24), (32, 32), (48, 48), (64, 64), (128, 128), (256, 256)])]
   \<and> ([''repo'', ''web'', ''public'', ''favicon.svg''], CopyOf [''repo'', ''assets'', ''icon.SVG''])
      \<in> set (snd (sync_targets (svg_world (Some ''/usr/bin/convert'')) (square_image 1024)
                 [''repo'', ''assets'', ''icon.SVG''] [''web'', ''desktop''] []))"
proof (rule conjI)
  let ?w = "png_world 512 512"
  let ?img = "\<lparr>width = 512, height = 512, pixels = []\<rparr>"
  note st = sync_web_png_world [of "''assets/icon.png''", unfolded png_world_simps]
  have h: "Inr (map fst (expected_log ?w ?img [''repo'', ''assets'', ''icon.png'']
               (source_is_svg [''repo'', ''assets'', ''icon.png'']) [''web'']))
        = Inr (map fst (expected_log ?w ?img [''repo'', ''assets'', ''icon.png'']
               (source_is_svg [''repo'', ''assets'', ''icon.png'']) [''web'']))
      \<and> \<not> source_is_svg [''repo'', ''assets'', ''icon.png''] \<and> [''web''] = [''web'']"
    by (simp add: not_svg_icon_png)
  have f: "RESAMPLE_FILTER ?w = 1"
    by (simp add: RESAMPLE_FILTER_def resample_filter_def png_world_def example_world_def)
  from svg_passthrough_iff_svg_source [OF st, THEN conjunct2, THEN conjunct2, rule_format, OF h]
  show "snd (sync_targets ?w ?img [''repo'', ''assets'', ''icon.png''] [''web''] []) =
     [([''repo'', ''web'', ''public'', ''favicon-16x16.png''], PngFile ?img 16 1 9),
      ([''repo'', ''web'', ''public'', ''favicon-32x32.png''], PngFile ?img 32 1 9),
      ([''repo'', ''web'', ''public'', ''videnoa_icon.png''], PngFile ?img 512 1 9),
      ([''repo'', ''web'', ''public'', ''favicon.ico''],
       IcoFile ?img
         [(16, 16), (24, 24), (32, 32), (48, 48), (64, 64), (128, 128), (256, 256)])]"
    unfolding st
    by (simp add: png_world_simps f PNG_COMPRESS_LEVEL_def ico_embedded_large)
next
  let ?w = "svg_world (Some ''/usr/bin/convert'')"
  note st = sync_web_desktop_svg_world
  have h: "Inr (map fst (expected_log ?w (square_image 1024) [''repo'', ''assets'', ''icon.SVG'']
               (source_is_svg [''repo'', ''assets'', ''icon.SVG'']) [''web'', ''desktop'']))
        = Inr (map fst (expected_log ?w (square_image 1024) [''repo'', ''assets'', ''icon.SVG'']
               (source_is_svg [''repo'', ''assets'', ''icon.SVG'']) [''web'', ''desktop'']))
      \<and> source_is_svg [''repo'', ''assets'', ''icon.SVG'']"
    by (simp add: svg_icon_SVG)
  have t: "''web'' \<in> set [''web'', ''desktop'']" by simp
  have rel: "[''web'', ''public'', ''favicon.svg''] \<in> set (svg
     \<lparr>png = [(16, [''web'', ''public'', ''favicon-16x16.png'']),
             (32, [''web'', ''public'', ''favicon-32x32.png'']),
             (512, [''web'', ''public'', ''videnoa_icon.png''])],
      ico = [[''web'', ''public'', ''favicon.ico'']],
      svg = [[''web'', ''public'', ''favicon.svg'']]\<rparr>)"
    by simp
  from svg_passthrough_iff_svg_source [OF st, THEN conjunct2, THEN conjunct1, rule_format,
      OF h t lookup_web rel]
  show "([''repo'', ''web'', ''public'', ''favicon.svg''], CopyOf [''repo'', ''assets'', ''icon.SVG''])
      \<in> set (snd (sync_targets ?w (square_image 1024)
                 [''repo'', ''assets'', ''icon.SVG''] [''web'', ''desktop''] []))"
    unfolding st by (simp add: svg_world_simps)
qed

subsection \<open>Claims about the source suffix\<close>

text \<open>
  Claim C9, as stated, fails for a file whose name is only \<open>.SVG\<close>: such a name has no
  stem, its suffix in the sense of pathlib is empty, and the loader rejects it as neither
  \<open>.svg\<close> nor \<open>.png\<close>.  The first theorem is the run on \<open>/repo/.SVG\<close>: the file
  exists and the rasteriser is installed, yet the run ends with the error for an
  unsupported suffix, and nothing is rasterised or copied.
\<close>

theorem dot_SVG_is_not_rasterised:
  "main (example_world [''repo'', ''.SVG''] (Decoded ''PNG'' (square_image 1024))
           (Some ''/usr/bin/convert'')) ''.SVG'' ''web'' =
     \<lparr>outcome = Exit 1, stdout = [],
      stderr = ''error: source must be a .svg or .png image: /repo/.SVG'' @ [CHR 0x0A],
      files = []\<rparr>"
proof -
  let ?w = "example_world [''repo'', ''.SVG''] (Decoded ''PNG'' (square_image 1024))
              (Some ''/usr/bin/convert'')"
  have suf: "path_suffix [''repo'', ''.SVG''] = []"
    by (simp add: path_suffix_def path_name_def)
  have l: "load_source_image ?w (resolve_source ?w ''.SVG'') =
      Inl (ValueError ''source must be a .svg or .png image: /repo/.SVG'')"
    by (simp add: load_source_image_def example_world_def resolve_source_def suf lower_def
        path_str_def)
  show ?thesis using main_load_fail [OF parse_web l] by simp
qed

text \<open>
  Claim C9, amended.  The loader and the writer both compare the lower-cased suffix of
  the source path, where the suffix is pathlib's: for a file name made of a non-empty
  stem and an extension that is \<open>.svg\<close> or \<open>.png\<close> in any case of letters (so also
  \<open>.SVG\<close> and \<open>.PNG\<close>), the suffix is that extension.  For every existing source
  file whose lower-cased suffix is \<open>.svg\<close>, the loader's result is that of
  \<open>load_svg_image\<close> followed by the square check; when it is \<open>.png\<close>, that of
  \<open>load_png_image\<close> followed by the square check.  For every source path, when no write
  fails the writer run for target \<open>web\<close> returns, and its log holds the copy of the
  source at \<open>web/public/favicon.svg\<close> exactly when the lower-cased suffix is \<open>.svg\<close>;
  and no run of the writer, for any targets, writes a copy of a source whose lower-cased
  suffix is not \<open>.svg\<close>.
\<close>

theorem suffix_dispatch_case_insensitive:
  "(stem \<noteq> [] \<and> (lower ext = ''.svg'' \<or> lower ext = ''.png'') \<longrightarrow>
      path_suffix (dir @ [stem @ ext]) = ext)
   \<and> (path_exists w sp = Inr True \<and> path_is_file w sp = Inr True
        \<and> lower (path_suffix sp) = ''.svg'' \<longrightarrow>
      (\<forall>e. load_svg_image w sp = Inl e \<longrightarrow> load_source_image w sp = Inl e)
      \<and> (\<forall>im. load_source_image w sp = Inr im \<longrightarrow> load_svg_image w sp = Inr im)
      \<and> (\<forall>im. load_svg_image w sp = Inr im \<and> width im = height im \<longrightarrow>
            load_source_image w sp = Inr im))
   \<and> (path_exists w sp = Inr True \<and> path_is_file w sp = Inr True
        \<and> lower (path_suffix sp) = ''.png'' \<longrightarrow>
      (\<forall>e. load_png_image w sp = Inl e \<longrightarrow> load_source_image w sp = Inl e)
      \<and> (\<forall>im. load_source_image w sp = Inr im \<longrightarrow> load_png_image w sp = Inr im)
      \<and> (\<forall>im. load_png_image w sp = Inr im \<and> width im = height im \<longrightarrow>
            load_source_image w sp = Inr im))
   \<and> (writes_ok w (expected_log w img sp (lower (path_suffix sp) = ''.svg'') [''web'']) \<longrightarrow>
      (\<exists>written. fst (sync_targets w img sp [''web''] []) = Inr written)
      \<and> ((ROOT_DIR w @ [''web'', ''public'', ''favicon.svg''], CopyOf sp)
             \<in> set (snd (sync_targets w img sp [''web''] []))
           \<longleftrightarrow> lower (path_suffix sp) = ''.svg''))
   \<and> (\<forall>ts r fs p q. sync_targets w img sp ts [] = (r, fs) \<and> (p, CopyOf q) \<in> set fs \<longrightarrow>
         lower (path_suffix sp) = ''.svg'')"
proof (intro conjI impI)
  assume h: "stem \<noteq> [] \<and> (lower ext = ''.svg'' \<or> lower ext = ''.png'')"
  then have stem: "stem \<noteq> []" by simp
  from h consider "lower ext = ''.svg''" | "lower ext = ''.png''" by blast
  then show "path_suffix (dir @ [stem @ ext]) = ext"
  proof cases
    case 1
    show ?thesis by (rule path_suffix_any_case [OF stem 1]) simp_all
  next
    case 2
    show ?thesis by (rule path_suffix_any_case [OF stem 2]) simp_all
  qed
next
  assume "path_exists w sp = Inr True \<and> path_is_file w sp = Inr True
      \<and> lower (path_suffix sp) = ''.svg''"
  then have a: "path_exists w sp = Inr True" "path_is_file w sp = Inr True"
    and low: "lower (path_suffix sp) = ''.svg''" by simp_all
  show "\<forall>e. load_svg_image w sp = Inl e \<longrightarrow> load_source_image w sp = Inl e"
    using a by (simp add: load_source_image_def low)
  show "\<forall>im. load_source_image w sp = Inr im \<longrightarrow> load_svg_image w sp = Inr im"
    using a by (auto simp: load_source_image_def low split: sum.splits if_splits)
  show "\<forall>im. load_svg_image w sp = Inr im \<and> width im = height im \<longrightarrow>
      load_source_image w sp = Inr im"
    using a by (simp add: load_source_image_def low)
next
  assume "path_exists w sp = Inr True \<and> path_is_file w sp = Inr True
      \<and> lower (path_suffix sp) = ''.png''"
  then have a: "path_exists w sp = Inr True" "path_is_file w sp = Inr True"
    and low: "lower (path_suffix sp) = ''.png''" by simp_all
  show "\<forall>e. load_png_image w sp = Inl e \<longrightarrow> load_source_image w sp = Inl e"
    using a by (simp add: load_source_image_def low)
  show "\<forall>im. load_source_image w sp = Inr im \<longrightarrow> load_png_image w sp = Inr im"
    using a by (auto simp: load_source_image_def low split: sum.splits if_splits)
  show "\<forall>im. load_png_image w sp = Inr im \<and> width im = height im \<longrightarrow>
      load_source_image w sp = Inr im"
    using a by (simp add: load_source_image_def low)
next
  assume ok: "writes_ok w (expected_log w img sp (lower (path_suffix sp) = ''.svg'') [''web''])"
  let ?log = "expected_log w img sp (source_is_svg sp) [''web'']"
  have st: "sync_targets w img sp [''web''] [] = (Inr (map fst ?log), [] @ ?log)"
    by (rule sync_targets_ok) (use ok in \<open>simp_all add: source_is_svg_def known_eq\<close>)
  show "\<exists>written. fst (sync_targets w img sp [''web''] []) = Inr written"
    unfolding st by simp
  show "(ROOT_DIR w @ [''web'', ''public'', ''favicon.svg''], CopyOf sp)
             \<in> set (snd (sync_targets w img sp [''web''] []))
           \<longleftrightarrow> lower (path_suffix sp) = ''.svg''"
    unfolding st
    by (auto simp: source_is_svg_def lookup_web target_entries_def png_entries_def
        ico_entries_def svg_entries_def)
next
  show "\<forall>ts r fs p q. sync_targets w img sp ts [] = (r, fs) \<and> (p, CopyOf q) \<in> set fs \<longrightarrow>
         lower (path_suffix sp) = ''.svg''"
  proof (intro allI impI)
    fix ts r fs p q
    assume h: "sync_targets w img sp ts [] = (r, fs) \<and> (p, CopyOf q) \<in> set fs"
    then have "(p, CopyOf q) \<in> set (expected_log w img sp (source_is_svg sp) ts)"
      using sync_targets_log_subset [of w img sp ts r fs] by auto
    from expected_log_copy [OF this] show "lower (path_suffix sp) = ''.svg''"
      by (simp add: source_is_svg_def)
  qed
qed

theorem suffix_dispatch_case_insensitive_witness:
  "path_suffix ([''repo'', ''assets''] @ [''icon'' @ ''.SVG'']) = ''.SVG''
   \<and> path_suffix ([''repo'', ''assets''] @ [''icon'' @ ''.PNG'']) = ''.PNG''
   \<and> load_source_image (svg_world (Some ''/usr/bin/convert'')) [''repo'', ''assets'', ''icon.SVG'']
       = Inr (square_image 1024)
   \<and> load_source_image
         (example_world [''repo'', ''assets'', ''icon.PNG''] (Decoded ''PNG'' (square_image 512)) None)
         [''repo'', ''assets'', ''icon.PNG'']
       = Inr (square_image 512)
   \<and> (\<exists>written. fst (sync_targets (svg_world (Some ''/usr/bin/convert'')) (square_image 1024)
          [''repo'', ''assets'', ''icon.SVG''] [''web''] []) = Inr written)
   \<and> ([''repo'', ''web'', ''public'', ''favicon.svg''], CopyOf [''repo'', ''assets'', ''icon.SVG''])
      \<in> set (snd (sync_targets (svg_world (Some ''/usr/bin/convert'')) (square_image 1024)
                 [''repo'', ''assets'', ''icon.SVG''] [''web''] []))
   \<and> ([''repo'', ''web'', ''public'', ''favicon.svg''], CopyOf [''repo'', ''assets'', ''icon.PNG''])
      \<notin> set (snd (sync_targets
                 (example_world [''repo'', ''assets'', ''icon.PNG'']
                    (Decoded ''PNG'' (square_image 512)) None)
                 (square_image 512) [''repo'', ''assets'', ''icon.PNG''] [''web''] []))"
proof -
  let ?ws = "svg_world (Some ''/usr/bin/convert'')"
  let ?ss = "[''repo'', ''assets'', ''icon.SVG'']"
  let ?wp = "example_world [''repo'', ''assets'', ''icon.PNG''] (Decoded ''PNG'' (square_image 512)) None"
  let ?sp = "[''repo'', ''assets'', ''icon.PNG'']"
  have sS: "path_suffix ([''repo'', ''assets''] @ [''icon'' @ ''.SVG'']) = ''.SVG''"
    by (rule suffix_dispatch_case_insensitive [THEN conjunct1, rule_format])
      (simp add: lower_SVG)
  have sP: "path_suffix ([''repo'', ''assets''] @ [''icon'' @ ''.PNG'']) = ''.PNG''"
    by (rule suffix_dispatch_case_insensitive [THEN conjunct1, rule_format])
      (simp add: lower_PNG)
  have lowS: "lower (path_suffix ?ss) = ''.svg''" using sS by (simp add: lower_SVG)
  have lowP: "lower (path_suffix ?sp) = ''.png''" using sP by (simp add: lower_PNG)
  have hs: "path_exists ?ws ?ss = Inr True \<and> path_is_file ?ws ?ss = Inr True
      \<and> lower (path_suffix ?ss) = ''.svg''"
    by (simp add: svg_world_simps lowS)
  have ls: "load_svg_image ?ws ?ss = Inr (square_image 1024)
      \<and> width (square_image 1024) = height (square_image 1024)"
    by (simp add: load_svg_world square_image_def)
  have hp: "path_exists ?wp ?sp = Inr True \<and> path_is_file ?wp ?sp = Inr True
      \<and> lower (path_suffix ?sp) = ''.png''"
    by (simp add: example_world_def lowP)
  have lp: "load_png_image ?wp ?sp = Inr (square_image 512)
      \<and> width (square_image 512) = height (square_image 512)"
    by (simp add: load_png_image_def example_world_def square_image_def)
  have oks: "writes_ok ?ws (expected_log ?ws (square_image 1024) ?ss
      (lower (path_suffix ?ss) = ''.svg'') [''web''])"
    by (rule writes_ok_svg_world)
  have okp: "writes_ok ?wp (expected_log ?wp (square_image 512) ?sp
      (lower (path_suffix ?sp) = ''.png'' \<and> False \<or> lower (path_suffix ?sp) = ''.svg'') [''web''])"
    by (intro writes_ok_expected_log) (simp_all add: example_world_def square_image_def)
  then have okp': "writes_ok ?wp (expected_log ?wp (square_image 512) ?sp
      (lower (path_suffix ?sp) = ''.svg'') [''web''])"
    by simp
  note ws = suffix_dispatch_case_insensitive [of _ _ _ ?ws ?ss "square_image 1024",
      THEN conjunct2, THEN conjunct2, THEN conjunct2, THEN conjunct1, rule_format, OF oks]
  note wp = suffix_dispatch_case_insensitive [of _ _ _ ?wp ?sp "square_image 512",
      THEN conjunct2, THEN conjunct2, THEN conjunct2, THEN conjunct1, rule_format, OF okp']
  have cs: "([''repo'', ''web'', ''public'', ''favicon.svg''], CopyOf ?ss)
      \<in> set (snd (sync_targets ?ws (square_image 1024) ?ss [''web''] []))"
    using ws [THEN conjunct2] lowS by (simp add: svg_world_simps)
  have cp: "([''repo'', ''web'', ''public'', ''favicon.svg''], CopyOf ?sp)
      \<notin> set (snd (sync_targets ?wp (square_image 512) ?sp [''web''] []))"
    using wp [THEN conjunct2] lowP by (simp add: example_world_def)
  show ?thesis
    using sS sP
      suffix_dispatch_case_insensitive [of _ _ _ ?ws ?ss, THEN conjunct2, THEN conjunct1,
        rule_format, OF hs, THEN conjunct2, THEN conjunct2, rule_format, OF ls]
      suffix_dispatch_case_insensitive [of _ _ _ ?wp ?sp, THEN conjunct2, THEN conjunct2,
        THEN conjunct1, rule_format, OF hp, THEN conjunct2, THEN conjunct2, rule_format, OF lp]
      ws [THEN conjunct1] cs cp
    by (intro conjI)
qed

end
